theory Spec2Isabelle
  imports Main
begin

unbundle bit_operations_syntax

section \<open>Data model of \<^verbatim>\<open>litex/soc/integration/soc.py\<close>\<close>

text \<open>
  Every failure of the source is an exception. The handlers report a rule violation with
  a bare \<^verbatim>\<open>raise\<close> after logging; the constructors below name those sites after the
  message they log. \<open>TypeError\<close>, \<open>KeyError\<close>, \<open>AttributeError\<close> and \<open>ValueError\<close> are the
  exceptions Python itself raises on the way (arithmetic on an origin that is
  \<^verbatim>\<open>None\<close>, a missing dictionary key, a missing attribute, \<^verbatim>\<open>log2_int\<close> on a
  number that is no power of two).
\<close>

datatype error =
    UnsupportedConfiguration
  | DuplicateRegionName
  | RegionOverlap string string
  | UncachedRegionOutsideIO
  | InsufficientAddressSpace
  | UnalignedDecoderRegion
  | DuplicateMasterName
  | MissingNameOrRegion
  | UnknownRegionName
  | DuplicateSlaveName
  | DuplicateLocationName
  | DuplicateLocationNumber
  | LocationOutOfRange
  | CapacityExhausted
  | TypeError
  | KeyError string
  | AttributeError string
  | ValueError

text \<open>
  \<^verbatim>\<open>SoCRegion\<close> and its two subclasses \<^verbatim>\<open>SoCIORegion\<close> and \<^verbatim>\<open>SoCLinkerRegion\<close>:
  the class of the object is the field \<open>kind\<close>. The origin is optional
  (\<^verbatim>\<open>origin=None\<close> asks for an allocation), sizes and origins are Python integers.
\<close>

datatype region_kind = Plain | IO | Linker

record SoCRegion =
  origin :: "int option"
  rsize :: int
  mode :: string
  cached :: bool
  kind :: region_kind

text \<open>
  A bus interface, as far as the handler looks at it: its data width. A Python
  dictionary is an association list in insertion order; \<open>dict_set\<close> is the assignment
  \<^verbatim>\<open>d[k] = v\<close>, which keeps the position of a key that is already there.
\<close>

record interface =
  if_data_width :: int

fun dict_set :: "('k \<times> 'v) list \<Rightarrow> 'k \<Rightarrow> 'v \<Rightarrow> ('k \<times> 'v) list" where
  "dict_set [] k v = [(k, v)]"
| "dict_set ((k', v') # kvs) k v =
     (if k' = k then (k, v) # kvs else (k', v') # dict_set kvs k v)"

definition keys :: "('k \<times> 'v) list \<Rightarrow> 'k set" where
  "keys d = fst ` set d"

definition dict_values :: "('k \<times> 'v) list \<Rightarrow> 'v set" where
  "dict_values d = snd ` set d"

record SoCBusHandler =
  standard :: string
  data_width :: int
  address_width :: nat
  masters :: "(string \<times> interface) list"
  slaves :: "(string \<times> interface) list"
  regions :: "(string \<times> SoCRegion) list"
  io_regions :: "(string \<times> SoCRegion) list"
  ld_regions :: "(string \<times> SoCRegion) list"
  submodules :: "(interface \<times> interface) list"

record SoCLocHandler =
  handler_name :: string
  locs :: "(string \<times> int) list"
  n_locs :: int

section \<open>SoCBusHandler: overlap and containment checks\<close>

text \<open>
  The body of the inner loop of \<^verbatim>\<open>check_regions_overlap\<close> for one pair: a Linker region
  on either side skips the pair, a missing origin makes the comparison raise
  \<open>TypeError\<close>, otherwise the pair overlaps unless one region lies at or above the end of
  the other.
\<close>

definition overlap_test :: "SoCRegion \<Rightarrow> SoCRegion \<Rightarrow> error + bool" where
  "overlap_test r0 r1 =
     (if kind r0 = Linker \<or> kind r1 = Linker then Inr False
      else (case (origin r0, origin r1) of
              (Some o0, Some o1) \<Rightarrow>
                if o0 \<ge> o1 + rsize r1 then Inr False
                else if o1 \<ge> o0 + rsize r0 then Inr False
                else Inr True
            | _ \<Rightarrow> Inl TypeError))"

fun overlap_scan ::
  "string \<Rightarrow> SoCRegion \<Rightarrow> (string \<times> SoCRegion) list \<Rightarrow> error + (string \<times> string) option" where
  "overlap_scan n0 r0 [] = Inr None"
| "overlap_scan n0 r0 ((n1, r1) # rest) =
     (case overlap_test r0 r1 of
        Inl e \<Rightarrow> Inl e
      | Inr True \<Rightarrow> Inr (Some (n0, n1))
      | Inr False \<Rightarrow> overlap_scan n0 r0 rest)"

fun check_regions_overlap ::
  "(string \<times> SoCRegion) list \<Rightarrow> error + (string \<times> string) option" where
  "check_regions_overlap [] = Inr None"
| "check_regions_overlap ((n0, r0) # rest) =
     (case overlap_scan n0 r0 rest of
        Inl e \<Rightarrow> Inl e
      | Inr (Some p) \<Rightarrow> Inr (Some p)
      | Inr None \<Rightarrow> check_regions_overlap rest)"

definition check_region_is_in :: "SoCRegion \<Rightarrow> SoCRegion \<Rightarrow> error + bool" where
  "check_region_is_in region container =
     (case (origin region, origin container) of
        (Some ro, Some co) \<Rightarrow>
          Inr (ro \<ge> co \<and> ro + rsize region < co + rsize container)
      | _ \<Rightarrow> Inl TypeError)"

fun check_region_is_io_loop ::
  "SoCRegion \<Rightarrow> (string \<times> SoCRegion) list \<Rightarrow> bool \<Rightarrow> error + bool" where
  "check_region_is_io_loop region [] is_io = Inr is_io"
| "check_region_is_io_loop region ((n, io_region) # rest) is_io =
     (case check_region_is_in region io_region of
        Inl e \<Rightarrow> Inl e
      | Inr b \<Rightarrow> check_region_is_io_loop region rest (if b then True else is_io))"

definition check_region_is_io :: "SoCBusHandler \<Rightarrow> SoCRegion \<Rightarrow> error + bool" where
  "check_region_is_io h region = check_region_is_io_loop region (io_regions h) False"

section \<open>SoCBusHandler: alloc_region\<close>

definition candidate_region :: "int \<Rightarrow> int \<Rightarrow> bool \<Rightarrow> SoCRegion" where
  "candidate_region org sz c =
     \<lparr>origin = Some org, rsize = sz, mode = ''rw'', cached = c, kind = Plain\<rparr>"

text \<open>
  The \<^verbatim>\<open>for _, allocated in self.regions.items()\<close> loop: the first allocated region that
  \<^verbatim>\<open>check_regions_overlap({"0": allocated, "1": candidate})\<close> reports, if any.
\<close>

fun first_conflict ::
  "(string \<times> SoCRegion) list \<Rightarrow> SoCRegion \<Rightarrow> error + SoCRegion option" where
  "first_conflict [] candidate = Inr None"
| "first_conflict ((n, allocated) # rest) candidate =
     (case check_regions_overlap [(''0'', allocated), (''1'', candidate)] of
        Inl e \<Rightarrow> Inl e
      | Inr (Some p) \<Rightarrow> Inr (Some allocated)
      | Inr None \<Rightarrow> first_conflict rest candidate)"

lemma first_conflict_overlaps:
  "first_conflict rs c = Inr (Some a) \<Longrightarrow> overlap_test a c = Inr True"
  by (induction rs) (auto split: sum.splits option.splits bool.splits)

lemma overlap_test_end_above:
  "overlap_test a c = Inr True \<Longrightarrow> origin a = Some ao \<Longrightarrow> origin c = Some co
     \<Longrightarrow> co < ao + rsize a"
  by (auto simp: overlap_test_def split: if_splits)

text \<open>
  The \<^verbatim>\<open>while (origin + size) < (search_region.origin + search_region.size)\<close> loop of
  one search region, \<open>lim\<close> being the end of the search region. It returns the selected
  candidate, or \<open>None\<close> when the loop ends without one.
\<close>

function alloc_scan ::
  "(string \<times> SoCRegion) list \<Rightarrow> int \<Rightarrow> bool \<Rightarrow> int \<Rightarrow> int \<Rightarrow> error + SoCRegion option" where
  "alloc_scan rs sz c lim org =
     (if org + sz < lim then
        (case first_conflict rs (candidate_region org sz c) of
           Inl e \<Rightarrow> Inl e
         | Inr None \<Rightarrow> Inr (Some (candidate_region org sz c))
         | Inr (Some allocated) \<Rightarrow>
             (case origin allocated of
                None \<Rightarrow> Inl TypeError
              | Some ao \<Rightarrow> alloc_scan rs sz c lim (ao + rsize allocated)))
      else Inr None)"
  by pat_completeness auto
termination
proof (relation "measure (\<lambda>(rs, sz, c, lim, org). nat (lim - sz - org))")
  show "wf (measure (\<lambda>(rs, sz, c, lim, org). nat (lim - sz - org)))"
    by simp
next
  fix rs :: "(string \<times> SoCRegion) list" and sz :: int and c :: bool and lim org :: int
    and x2 :: "SoCRegion option" and allocated :: SoCRegion and ao :: int
  assume guard: "org + sz < lim"
    and fc: "first_conflict rs (candidate_region org sz c) = Inr x2"
    and some: "x2 = Some allocated"
    and ao: "origin allocated = Some ao"
  from fc some have "overlap_test allocated (candidate_region org sz c) = Inr True"
    by (simp add: first_conflict_overlaps)
  with ao have "org < ao + rsize allocated"
    by (auto dest: overlap_test_end_above simp: candidate_region_def)
  with guard show "((rs, sz, c, lim, ao + rsize allocated), (rs, sz, c, lim, org))
      \<in> measure (\<lambda>(rs, sz, c, lim, org). nat (lim - sz - org))"
    by simp
qed

declare alloc_scan.simps [simp del]


text \<open>
  The \<^verbatim>\<open>for _, search_region in search_regions.items()\<close> loop: each search region is
  scanned from its origin; a search region without origin makes \<^verbatim>\<open>origin + size\<close>
  raise. When no search region yields a candidate the function logs
  "Not enough Address Space to allocate Region" and raises.
\<close>

fun alloc_search ::
  "(string \<times> SoCRegion) list \<Rightarrow> int \<Rightarrow> bool \<Rightarrow> (string \<times> SoCRegion) list
     \<Rightarrow> error + SoCRegion" where
  "alloc_search rs sz c [] = Inl InsufficientAddressSpace"
| "alloc_search rs sz c ((n, search_region) # rest) =
     (case origin search_region of
        None \<Rightarrow> Inl TypeError
      | Some so \<Rightarrow>
          (case alloc_scan rs sz c (so + rsize search_region) so of
             Inl e \<Rightarrow> Inl e
           | Inr (Some candidate) \<Rightarrow> Inr candidate
           | Inr None \<Rightarrow> alloc_search rs sz c rest))"

text \<open>
  The same two loops with a bound on the number of iterations of each \<^verbatim>\<open>while\<close> loop:
  \<open>None\<close> when the bound is used up before the loop ends. They serve to state that
  \<^verbatim>\<open>alloc_region\<close> ends after finitely many iterations.
\<close>

fun alloc_scan_fuel ::
  "nat \<Rightarrow> (string \<times> SoCRegion) list \<Rightarrow> int \<Rightarrow> bool \<Rightarrow> int \<Rightarrow> int
     \<Rightarrow> (error + SoCRegion option) option" where
  "alloc_scan_fuel 0 rs sz c lim org = None"
| "alloc_scan_fuel (Suc k) rs sz c lim org =
     (if org + sz < lim then
        (case first_conflict rs (candidate_region org sz c) of
           Inl e \<Rightarrow> Some (Inl e)
         | Inr None \<Rightarrow> Some (Inr (Some (candidate_region org sz c)))
         | Inr (Some allocated) \<Rightarrow>
             (case origin allocated of
                None \<Rightarrow> Some (Inl TypeError)
              | Some ao \<Rightarrow> alloc_scan_fuel k rs sz c lim (ao + rsize allocated)))
      else Some (Inr None))"

fun alloc_search_fuel ::
  "nat \<Rightarrow> (string \<times> SoCRegion) list \<Rightarrow> int \<Rightarrow> bool \<Rightarrow> (string \<times> SoCRegion) list
     \<Rightarrow> (error + SoCRegion) option" where
  "alloc_search_fuel k rs sz c [] = Some (Inl InsufficientAddressSpace)"
| "alloc_search_fuel k rs sz c ((n, search_region) # rest) =
     (case origin search_region of
        None \<Rightarrow> Some (Inl TypeError)
      | Some so \<Rightarrow>
          (case alloc_scan_fuel k rs sz c (so + rsize search_region) so of
             None \<Rightarrow> None
           | Some (Inl e) \<Rightarrow> Some (Inl e)
           | Some (Inr (Some candidate)) \<Rightarrow> Some (Inr candidate)
           | Some (Inr None) \<Rightarrow> alloc_search_fuel k rs sz c rest))"

definition search_regions :: "SoCBusHandler \<Rightarrow> bool \<Rightarrow> (string \<times> SoCRegion) list" where
  "search_regions h c =
     (if c = False then io_regions h
      else [(''main'', \<lparr>origin = Some 0, rsize = 2 ^ address_width h - 1, mode = ''rw'',
                        cached = True, kind = Plain\<rparr>)])"

definition alloc_region :: "SoCBusHandler \<Rightarrow> string \<Rightarrow> int \<Rightarrow> bool \<Rightarrow> error + SoCRegion" where
  "alloc_region h name sz c = alloc_search (regions h) sz c (search_regions h c)"

definition alloc_region_fuel ::
  "nat \<Rightarrow> SoCBusHandler \<Rightarrow> string \<Rightarrow> int \<Rightarrow> bool \<Rightarrow> (error + SoCRegion) option" where
  "alloc_region_fuel k h name sz c = alloc_search_fuel k (regions h) sz c (search_regions h c)"

section \<open>SoCBusHandler: add_region\<close>

text \<open>
  A handler method returns \<open>Inr\<close> with the handler after the call, or \<open>Inl (e, h')\<close>: the
  exception and the handler as the raise leaves it, since the source assigns to its
  dictionaries before some of its checks.

  On an overlap the source logs \<^verbatim>\<open>str(self.regions[overlap[0]])\<close> and
  \<^verbatim>\<open>str(self.regions[overlap[1]])\<close> (always the plain table) before its \<^verbatim>\<open>raise\<close>;
  a name that is not a key of \<^verbatim>\<open>self.regions\<close> raises \<open>KeyError\<close> there.
\<close>

definition overlap_error :: "SoCBusHandler \<Rightarrow> string \<times> string \<Rightarrow> error" where
  "overlap_error h p =
     (if fst p \<notin> keys (regions h) then KeyError (fst p)
      else if snd p \<notin> keys (regions h) then KeyError (snd p)
      else RegionOverlap (fst p) (snd p))"

definition checked ::
  "SoCBusHandler \<Rightarrow> (string \<times> SoCRegion) list \<Rightarrow> (error \<times> SoCBusHandler) + SoCBusHandler" where
  "checked h table =
     (case check_regions_overlap table of
        Inl e \<Rightarrow> Inl (e, h)
      | Inr (Some p) \<Rightarrow> Inl (overlap_error h p, h)
      | Inr None \<Rightarrow> Inr h)"

definition add_region ::
  "SoCBusHandler \<Rightarrow> string \<Rightarrow> SoCRegion \<Rightarrow> (error \<times> SoCBusHandler) + SoCBusHandler" where
  "add_region h name region =
     (case kind region of
        IO \<Rightarrow>
          if name \<in> keys (masters h) then Inl (DuplicateRegionName, h)
          else let h' = h\<lparr>io_regions := dict_set (io_regions h) name region\<rparr>
               in checked h' (io_regions h')
      | Linker \<Rightarrow>
          if name \<in> keys (masters h) then Inl (DuplicateRegionName, h)
          else let h' = h\<lparr>ld_regions := dict_set (ld_regions h) name region\<rparr>
               in checked h' (ld_regions h')
      | Plain \<Rightarrow>
          (case origin region of
             None \<Rightarrow>
               (case alloc_region h name (rsize region) (cached region) of
                  Inl e \<Rightarrow> Inl (e, h)
                | Inr candidate \<Rightarrow> Inr (h\<lparr>regions := dict_set (regions h) name candidate\<rparr>))
           | Some ro \<Rightarrow>
               (case (if \<not> cached region then check_region_is_io h region else Inr True) of
                  Inl e \<Rightarrow> Inl (e, h)
                | Inr False \<Rightarrow> Inl (UncachedRegionOutsideIO, h)
                | Inr True \<Rightarrow>
                    let h' = h\<lparr>regions := dict_set (regions h) name region\<rparr>
                    in checked h' (regions h'))))"

text \<open>A sequence of calls; the first exception ends it, as it ends the build.\<close>

fun add_regions ::
  "SoCBusHandler \<Rightarrow> (string \<times> SoCRegion) list \<Rightarrow> (error \<times> SoCBusHandler) + SoCBusHandler" where
  "add_regions h [] = Inr h"
| "add_regions h ((name, region) # calls) =
     (case add_region h name region of
        Inl e \<Rightarrow> Inl e
      | Inr h' \<Rightarrow> add_regions h' calls)"

text \<open>
  \<^verbatim>\<open>SoCBusHandler.__init__\<close>: the three configuration checks, empty tables, then one
  \<^verbatim>\<open>add_region\<close> per reserved region; a reserved region given as a bare integer is a
  region of size \<^verbatim>\<open>0x1000000\<close> at that origin. The timeout and the logger are left out:
  no method below reads them.
\<close>

datatype reserved = Origin int | Region SoCRegion

definition reserved_region :: "reserved \<Rightarrow> SoCRegion" where
  "reserved_region x =
     (case x of
        Origin ro \<Rightarrow> \<lparr>origin = Some ro, rsize = 0x1000000, mode = ''rw'', cached = True,
                      kind = Plain\<rparr>
      | Region r \<Rightarrow> r)"

definition new_bus :: "string \<Rightarrow> int \<Rightarrow> nat \<Rightarrow> SoCBusHandler" where
  "new_bus std dw aw =
     \<lparr>standard = std, data_width = dw, address_width = aw, masters = [], slaves = [],
      regions = [], io_regions = [], ld_regions = [], submodules = []\<rparr>"

definition SoCBusHandler_init ::
  "string \<Rightarrow> int \<Rightarrow> nat \<Rightarrow> (string \<times> reserved) list \<Rightarrow> (error \<times> SoCBusHandler) + SoCBusHandler" where
  "SoCBusHandler_init std dw aw reserved_regions =
     (if std \<notin> set [''wishbone''] then Inl (UnsupportedConfiguration, new_bus std dw aw)
      else if dw \<notin> set [32, 64] then Inl (UnsupportedConfiguration, new_bus std dw aw)
      else if aw \<notin> set [32] then Inl (UnsupportedConfiguration, new_bus std dw aw)
      else add_regions (new_bus std dw aw)
             (map (\<lambda>(name, x). (name, reserved_region x)) reserved_regions))"

section \<open>SoCBusHandler: masters and slaves\<close>

text \<open>\<^verbatim>\<open>"{:d}".format(n)\<close> for a length: the decimal digits of a natural number.\<close>

fun str_nat :: "nat \<Rightarrow> string" where
  "str_nat n =
     (if n < 10 then [char_of (48 + n)]
      else str_nat (n div 10) @ [char_of (48 + n mod 10)])"

declare str_nat.simps [simp del]

text \<open>
  \<^verbatim>\<open>add_adapter\<close>: an interface of another data width gets a \<^verbatim>\<open>wishbone.Converter\<close>
  (recorded in \<open>submodules\<close>) to a new interface of the bus's width. The default
  \<^verbatim>\<open>master=None\<close> / \<^verbatim>\<open>slave=None\<close> has no \<^verbatim>\<open>data_width\<close>.
\<close>

definition add_adapter ::
  "SoCBusHandler \<Rightarrow> string \<Rightarrow> interface option \<Rightarrow> error + (SoCBusHandler \<times> interface)" where
  "add_adapter h name iface =
     (case iface of
        None \<Rightarrow> Inl (AttributeError ''data_width'')
      | Some i \<Rightarrow>
          if if_data_width i \<noteq> data_width h then
            let new_interface = \<lparr>if_data_width = data_width h\<rparr>
            in Inr (h\<lparr>submodules := submodules h @ [(i, new_interface)]\<rparr>, new_interface)
          else Inr (h, i))"

definition add_master ::
  "SoCBusHandler \<Rightarrow> string option \<Rightarrow> interface option
     \<Rightarrow> (error \<times> SoCBusHandler) + SoCBusHandler" where
  "add_master h name master =
     (let name = (case name of None \<Rightarrow> ''master'' @ str_nat (length (masters h)) | Some n \<Rightarrow> n)
      in if name \<in> keys (masters h) then Inl (DuplicateMasterName, h)
         else (case add_adapter h name master of
                 Inl e \<Rightarrow> Inl (e, h)
               | Inr (h', m) \<Rightarrow> Inr (h'\<lparr>masters := dict_set (masters h') name m\<rparr>)))"

definition add_slave ::
  "SoCBusHandler \<Rightarrow> string option \<Rightarrow> interface option \<Rightarrow> SoCRegion option
     \<Rightarrow> (error \<times> SoCBusHandler) + SoCBusHandler" where
  "add_slave h name slave region =
     (if name = None \<and> region = None then Inl (MissingNameOrRegion, h)
      else
        let name = (case name of None \<Rightarrow> ''slave'' @ str_nat (length (slaves h)) | Some n \<Rightarrow> n)
        in (case (case region of
                    None \<Rightarrow>
                      (case map_of (regions h) name of
                         None \<Rightarrow> Inl (UnknownRegionName, h)
                       | Some r \<Rightarrow> Inr h)
                  | Some r \<Rightarrow> add_region h name r) of
              Inl e \<Rightarrow> Inl e
            | Inr h' \<Rightarrow>
                if name \<in> keys (slaves h') then Inl (DuplicateSlaveName, h')
                else (case add_adapter h' name slave of
                        Inl e \<Rightarrow> Inl (e, h')
                      | Inr (h'', s) \<Rightarrow> Inr (h''\<lparr>slaves := dict_set (slaves h'') name s\<rparr>))))"


section \<open>SoCRegion.decoder\<close>

text \<open>
  Modelled from the spec: \<^verbatim>\<open>log2_int\<close> and the address signal \<^verbatim>\<open>a\<close> with its slicing
  \<^verbatim>\<open>a[k:-1]\<close> belong to the migen library, which is not under src/. The spec's decoder
  compares the high address bits, \<^verbatim>\<open>address >> log2(size_words)\<close>, with
  \<^verbatim>\<open>origin >> log2(size_words)\<close>. \<open>log2_int n need_pow2\<close> is \<open>0\<close> for \<open>n = 0\<close> and otherwise the
  bit length \<open>r\<close> of \<open>n - 1\<close> (the exponent of a power of two, the next exponent above for
  any other positive number), with \<open>ValueError\<close> when a power of two is required and
  \<open>2 ^ r \<noteq> n\<close>. A signal is a number of bits and a value; a Python slice with stop \<open>-1\<close>
  on a sequence of \<open>n\<close> items selects the positions \<open>k, \<dots>, n - 2\<close>, so \<^verbatim>\<open>a[k:-1]\<close> is the
  value of the bits \<open>k\<close> up to, and without, the most significant bit of the signal. It
  is the empty slice, of value 0, for \<open>k = n - 1\<close>; for \<open>k \<ge> n\<close> the slice runs from \<open>n\<close> to
  \<open>n - 1\<close>, a negative width, and its evaluation raises \<open>ValueError\<close>.
\<close>

fun bit_length_nat :: "nat \<Rightarrow> nat" where
  "bit_length_nat n = (if n = 0 then 0 else Suc (bit_length_nat (n div 2)))"

declare bit_length_nat.simps [simp del]

definition bit_length :: "int \<Rightarrow> nat" where
  "bit_length x = bit_length_nat (nat \<bar>x\<bar>)"

definition log2_int :: "int \<Rightarrow> bool \<Rightarrow> error + nat" where
  "log2_int n need_pow2 =
     (if n = 0 then Inr 0
      else let r = bit_length (n - 1)
           in if need_pow2 \<and> 2 ^ r \<noteq> n then Inl ValueError else Inr r)"

record signal =
  nbits :: nat
  sig_value :: int

definition slice_to_last :: "signal \<Rightarrow> nat \<Rightarrow> error + int" where
  "slice_to_last a k =
     (if 0 < nbits a \<and> nbits a \<le> k then Inl ValueError
      else Inr (take_bit (nbits a - 1 - k) (drop_bit k (sig_value a))))"

text \<open>
  \<^verbatim>\<open>decoder\<close>: bit 31 of the origin is cleared, the size is rounded up to a power of two,
  an origin that is not aligned on that size raises; origin and size then go from bytes
  to 32-bit words. The predicate that is returned calls \<^verbatim>\<open>log2_int\<close> (which requires a
  power of two) when it is applied.
\<close>

definition decoder :: "SoCRegion \<Rightarrow> error + (signal \<Rightarrow> error + bool)" where
  "decoder r =
     (case origin r of
        None \<Rightarrow> Inl TypeError
      | Some ro \<Rightarrow>
          (case log2_int (rsize r) False of
             Inl e \<Rightarrow> Inl e
           | Inr l \<Rightarrow>
               let org = ro AND NOT 0x80000000; sz = (2::int) ^ l
               in if org AND (sz - 1) \<noteq> 0 then Inl UnalignedDecoderRegion
                  else
                    let org = drop_bit 2 org; sz = drop_bit 2 sz
                    in Inr (\<lambda>a. case log2_int sz True of
                                   Inl e \<Rightarrow> Inl e
                                 | Inr k \<Rightarrow>
                                     (case slice_to_last a k of
                                        Inl e \<Rightarrow> Inl e
                                      | Inr v \<Rightarrow> Inr (v = drop_bit k org)))))"

text \<open>The word address of a byte address on the 30-bit address signal of a 32-bit bus.\<close>

definition word_address :: "int \<Rightarrow> signal" where
  "word_address x = \<lparr>nbits = 30, sig_value = drop_bit 2 x\<rparr>"

section \<open>SoCLocHandler\<close>

text \<open>
  \<^verbatim>\<open>alloc\<close>: the first \<open>n\<close> of \<^verbatim>\<open>range(self.n_locs)\<close> that is no value of \<^verbatim>\<open>self.locs\<close>;
  "Not enough Locations." otherwise.
\<close>

definition alloc :: "SoCLocHandler \<Rightarrow> string \<Rightarrow> error + int" where
  "alloc h name =
     (case find (\<lambda>n. n \<notin> dict_values (locs h)) [0..n_locs h - 1] of
        Some n \<Rightarrow> Inr n
      | None \<Rightarrow> Inl CapacityExhausted)"

text \<open>
  \<^verbatim>\<open>add\<close> has no \<^verbatim>\<open>return\<close> statement: the call evaluates to \<^verbatim>\<open>None\<close>. What it
  produces is the table and the line it logs last, "... allocated/added at Location n".
  The message of the "Location too high" branch reads \<^verbatim>\<open>self.n_csrs\<close>, an attribute
  that no class of the file sets, so that branch raises \<open>AttributeError\<close>.
\<close>

datatype pyvalue = PyNone | PyInt int

record add_result =
  handler :: SoCLocHandler
  logged_allocated :: bool
  logged_location :: int
  returned :: pyvalue

definition add ::
  "SoCLocHandler \<Rightarrow> string \<Rightarrow> int option \<Rightarrow> bool \<Rightarrow> (error \<times> SoCLocHandler) + add_result" where
  "add h name n use_loc_if_exists =
     (if \<not> (use_loc_if_exists \<and> name \<in> keys (locs h)) then
        if name \<in> keys (locs h) then Inl (DuplicateLocationName, h)
        else if (case n of None \<Rightarrow> False | Some k \<Rightarrow> k \<in> dict_values (locs h))
          then Inl (DuplicateLocationNumber, h)
        else
          (case n of
             None \<Rightarrow>
               (case alloc h name of
                  Inl e \<Rightarrow> Inl (e, h)
                | Inr k \<Rightarrow>
                    Inr \<lparr>handler = h\<lparr>locs := dict_set (locs h) name k\<rparr>,
                         logged_allocated = True, logged_location = k, returned = PyNone\<rparr>)
           | Some k \<Rightarrow>
               if k < 0 then Inl (LocationOutOfRange, h)
               else if k > n_locs h then Inl (AttributeError ''n_csrs'', h)
               else Inr \<lparr>handler = h\<lparr>locs := dict_set (locs h) name k\<rparr>,
                         logged_allocated = False, logged_location = k, returned = PyNone\<rparr>)
      else
        (case map_of (locs h) name of
           None \<Rightarrow> Inl (KeyError name, h)
         | Some k \<Rightarrow>
             Inr \<lparr>handler = h, logged_allocated = False, logged_location = k,
                  returned = PyNone\<rparr>))"

section \<open>Predicates of the statements\<close>

text \<open>
  Two stored regions are apart when both have an origin and they do not overlap, where
  \<open>A\<close> and \<open>B\<close> overlap iff \<open>A.origin < B.origin + B.size\<close> and
  \<open>B.origin < A.origin + A.size\<close>. A table has no overlaps when any two of its entries
  are apart. \<open>table_ok k\<close> is the invariant of a table of regions of class \<open>k\<close>: the
  overlap check of the source passes on it.
\<close>

definition placed_apart :: "SoCRegion \<Rightarrow> SoCRegion \<Rightarrow> bool" where
  "placed_apart A B =
     (case (origin A, origin B) of
        (Some a, Some b) \<Rightarrow> \<not> (a < b + rsize B \<and> b < a + rsize A)
      | _ \<Rightarrow> False)"

fun no_overlaps :: "(string \<times> SoCRegion) list \<Rightarrow> bool" where
  "no_overlaps [] = True"
| "no_overlaps ((n, r) # rest) = ((\<forall>(m, s) \<in> set rest. placed_apart r s) \<and> no_overlaps rest)"

definition table_ok :: "region_kind \<Rightarrow> (string \<times> SoCRegion) list \<Rightarrow> bool" where
  "table_ok k tbl \<longleftrightarrow> (\<forall>(n, r) \<in> set tbl. kind r = k) \<and> check_regions_overlap tbl = Inr None"

text \<open>
  \<open>region_table h r\<close> is the table \<^verbatim>\<open>add_region\<close> selects for a region of the class of
  \<open>r\<close>, \<open>store_region h name r\<close> the handler after the assignment to that table.
\<close>

definition region_table :: "SoCBusHandler \<Rightarrow> SoCRegion \<Rightarrow> (string \<times> SoCRegion) list" where
  "region_table h r =
     (case kind r of IO \<Rightarrow> io_regions h | Linker \<Rightarrow> ld_regions h | Plain \<Rightarrow> regions h)"

definition store_region :: "SoCBusHandler \<Rightarrow> string \<Rightarrow> SoCRegion \<Rightarrow> SoCBusHandler" where
  "store_region h name r =
     (case kind r of
        IO \<Rightarrow> h\<lparr>io_regions := dict_set (io_regions h) name r\<rparr>
      | Linker \<Rightarrow> h\<lparr>ld_regions := dict_set (ld_regions h) name r\<rparr>
      | Plain \<Rightarrow> h\<lparr>regions := dict_set (regions h) name r\<rparr>)"

text \<open>
  \<open>overlap_check_fails h name r\<close>: the call \<^verbatim>\<open>add_region(name, r)\<close> gets as far as the
  assignment to its table, and the overlap check that follows does not pass.
  \<open>slave_name h name\<close> is the name \<^verbatim>\<open>add_slave\<close> works with, \<^verbatim>\<open>slave<N>\<close> when none is
  given.
\<close>

definition overlap_check_fails :: "SoCBusHandler \<Rightarrow> string \<Rightarrow> SoCRegion \<Rightarrow> bool" where
  "overlap_check_fails h name r \<longleftrightarrow>
     (case kind r of
        Plain \<Rightarrow> origin r \<noteq> None \<and> (cached r \<or> check_region_is_io h r = Inr True)
      | IO \<Rightarrow> name \<notin> keys (masters h)
      | Linker \<Rightarrow> name \<notin> keys (masters h))
     \<and> check_regions_overlap (region_table (store_region h name r) r) \<noteq> Inr None"

definition slave_name :: "SoCBusHandler \<Rightarrow> string option \<Rightarrow> string" where
  "slave_name h name =
     (case name of None \<Rightarrow> ''slave'' @ str_nat (length (slaves h)) | Some n \<Rightarrow> n)"

section \<open>Properties of SoCLocHandler\<close>

lemma find_upto_Some:
  "find P [i..j] = Some n \<longleftrightarrow> i \<le> n \<and> n \<le> j \<and> P n \<and> (\<forall>m. i \<le> m \<and> m < n \<longrightarrow> \<not> P m)"
proof (induction i j rule: upto.induct)
  case (1 i j)
  show ?case
  proof (cases "i \<le> j")
    case False
    then show ?thesis by auto
  next
    case True
    then have eq: "[i..j] = i # [i + 1..j]" by (simp add: upto_rec1)
    show ?thesis
    proof (cases "P i")
      case True
      then show ?thesis using eq \<open>i \<le> j\<close> by (auto simp: not_less) 
    next
      case False
      have "(\<forall>m. i \<le> m \<and> m < n \<longrightarrow> \<not> P m) \<longleftrightarrow> (\<forall>m. i + 1 \<le> m \<and> m < n \<longrightarrow> \<not> P m)" 
        using False by (metis add1_zle_eq order_le_less)
      moreover have "i \<le> n \<and> P n \<longleftrightarrow> i + 1 \<le> n \<and> P n" using False
        by (metis add1_zle_eq order_le_less)
      ultimately show ?thesis using eq False 1[OF True] by auto
    qed
  qed
qed

lemma find_upto_None:
  "find P [i..j] = None \<longleftrightarrow> (\<forall>m. i \<le> m \<and> m \<le> j \<longrightarrow> \<not> P m)"
  by (auto simp: find_None_iff)

lemma alloc_iff:
  "alloc h name = Inr n \<longleftrightarrow>
     0 \<le> n \<and> n < n_locs h \<and> n \<notin> dict_values (locs h) \<and>
     (\<forall>m. 0 \<le> m \<and> m < n \<longrightarrow> m \<in> dict_values (locs h))"
proof (cases "find (\<lambda>n. n \<notin> dict_values (locs h)) [0..n_locs h - 1]")
  case None
  then have "alloc h name = Inl CapacityExhausted"
    by (simp add: alloc_def)
  moreover from None have "\<forall>m. 0 \<le> m \<and> m \<le> n_locs h - 1 \<longrightarrow> m \<in> dict_values (locs h)"
    by (simp add: find_upto_None)
  ultimately show ?thesis by auto
next
  case (Some k)
  then have k: "0 \<le> k" "k < n_locs h" "k \<notin> dict_values (locs h)"
     "\<forall>m. 0 \<le> m \<and> m < k \<longrightarrow> m \<in> dict_values (locs h)"
    by (auto simp: find_upto_Some)
  have res: "alloc h name = Inr k" using Some by (simp add: alloc_def)
  show ?thesis
  proof
    assume "alloc h name = Inr n"
    with res have "n = k" by simp
    with k show "0 \<le> n \<and> n < n_locs h \<and> n \<notin> dict_values (locs h) \<and>
       (\<forall>m. 0 \<le> m \<and> m < n \<longrightarrow> m \<in> dict_values (locs h))"
      by simp
  next
    assume n: "0 \<le> n \<and> n < n_locs h \<and> n \<notin> dict_values (locs h) \<and>
       (\<forall>m. 0 \<le> m \<and> m < n \<longrightarrow> m \<in> dict_values (locs h))"
    have "\<not> n < k" using n k(4) by blast
    moreover have "\<not> k < n" using n k(1,3) by blast
    ultimately have "n = k" by simp
    with res show "alloc h name = Inr n" by simp
  qed
qed

lemma alloc_full:
  "(\<forall>m. 0 \<le> m \<and> m < n_locs h \<longrightarrow> m \<in> dict_values (locs h)) \<Longrightarrow> alloc h name = Inl CapacityExhausted"
  by (auto simp: alloc_def find_upto_None split: option.splits)
lemma keys_map_of: "name \<in> keys d \<longleftrightarrow> (\<exists>k. map_of d name = Some k)"
  using map_of_eq_None_iff [of d name] by (cases "map_of d name") (auto simp: keys_def)

text \<open>
  C5, as amended. \<^verbatim>\<open>alloc(name)\<close> returns \<open>n\<close> exactly when \<open>n\<close> is the smallest number of
  \<open>[0, n_locs)\<close> that is no value of the table, so it never returns a slot that is
  present. Once every number of \<open>[0, n_locs)\<close> is a value of the table, \<^verbatim>\<open>add\<close> without a
  slot number fails with "Not enough Locations" (\<open>CapacityExhausted\<close>) and leaves the table
  as it was, for every name that is not yet in the table. The restriction to new names is
  needed: the counterexample after the witness is a full table on which
  \<^verbatim>\<open>add("ctrl", use_loc_if_exists=True)\<close> succeeds.
\<close>

theorem alloc_smallest_free_slot:
  "(alloc h name = Inr n \<longleftrightarrow>
      0 \<le> n \<and> n < n_locs h \<and> n \<notin> dict_values (locs h) \<and>
      (\<forall>m. 0 \<le> m \<and> m < n \<longrightarrow> m \<in> dict_values (locs h)))
   \<and> ((\<forall>m. 0 \<le> m \<and> m < n_locs h \<longrightarrow> m \<in> dict_values (locs h)) \<and> name \<notin> keys (locs h)
        \<longrightarrow> add h name None u = Inl (CapacityExhausted, h))"
proof (intro conjI impI)
  show "alloc h name = Inr n \<longleftrightarrow>
      0 \<le> n \<and> n < n_locs h \<and> n \<notin> dict_values (locs h) \<and>
      (\<forall>m. 0 \<le> m \<and> m < n \<longrightarrow> m \<in> dict_values (locs h))"
    by (rule alloc_iff)
next
  assume a: "(\<forall>m. 0 \<le> m \<and> m < n_locs h \<longrightarrow> m \<in> dict_values (locs h)) \<and> name \<notin> keys (locs h)"
  then have "alloc h name = Inl CapacityExhausted" by (simp add: alloc_full)
  with a show "add h name None u = Inl (CapacityExhausted, h)"
    by (simp add: add_def)
qed

theorem alloc_smallest_free_slot_witness:
  "alloc \<lparr>handler_name = ''CSR'', locs = [(''a'', 0), (''c'', 2)], n_locs = 4\<rparr> ''b'' = Inr 1
   \<and> add \<lparr>handler_name = ''CSR'', locs = [(''a'', 0), (''c'', 1)], n_locs = 2\<rparr> ''b'' None False
       = Inl (CapacityExhausted, \<lparr>handler_name = ''CSR'', locs = [(''a'', 0), (''c'', 1)], n_locs = 2\<rparr>)"
proof
  have "\<forall>m::int. 0 \<le> m \<and> m < 1 \<longrightarrow> m = 0" by auto
  then show "alloc \<lparr>handler_name = ''CSR'', locs = [(''a'', 0), (''c'', 2)], n_locs = 4\<rparr> ''b'' = Inr 1"
    using alloc_smallest_free_slot
      [of "\<lparr>handler_name = ''CSR'', locs = [(''a'', 0), (''c'', 2)], n_locs = 4\<rparr>" "''b''" 1]
    by (simp add: dict_values_def)
next
  have "\<forall>m::int. 0 \<le> m \<and> m < 2 \<longrightarrow> m = 0 \<or> m = 1" by auto
  then show "add \<lparr>handler_name = ''CSR'', locs = [(''a'', 0), (''c'', 1)], n_locs = 2\<rparr> ''b'' None False
       = Inl (CapacityExhausted, \<lparr>handler_name = ''CSR'', locs = [(''a'', 0), (''c'', 1)], n_locs = 2\<rparr>)"
    using alloc_smallest_free_slot
      [of "\<lparr>handler_name = ''CSR'', locs = [(''a'', 0), (''c'', 1)], n_locs = 2\<rparr>" "''b''" _ False]
    by (simp add: dict_values_def keys_def)
qed

theorem add_on_full_table_reuses_counterexample:
  "dict_values (locs \<lparr>handler_name = ''CSR'', locs = [(''ctrl'', 0)], n_locs = 1\<rparr>) = {0}
   \<and> add \<lparr>handler_name = ''CSR'', locs = [(''ctrl'', 0)], n_locs = 1\<rparr> ''ctrl'' None True
       = Inr \<lparr>handler = \<lparr>handler_name = ''CSR'', locs = [(''ctrl'', 0)], n_locs = 1\<rparr>,
              logged_allocated = False, logged_location = 0, returned = PyNone\<rparr>"
  by (simp add: add_def keys_def dict_values_def)

text \<open>
  C6. The code accepts a slot number equal to the capacity: the test is
  \<^verbatim>\<open>n > self.n_locs\<close>, so on an interrupt handler of 32 lines \<^verbatim>\<open>add("uart", 32)\<close> stores
  slot 32, outside \<open>[0, 32)\<close>, the range that \<^verbatim>\<open>alloc\<close> hands out.
\<close>

theorem add_accepts_slot_equal_to_capacity:
  "add \<lparr>handler_name = ''IRQ'', locs = [], n_locs = 32\<rparr> ''uart'' (Some 32) False
     = Inr \<lparr>handler = \<lparr>handler_name = ''IRQ'', locs = [(''uart'', 32)], n_locs = 32\<rparr>,
            logged_allocated = False, logged_location = 32, returned = PyNone\<rparr>"
  by (simp add: add_def keys_def dict_values_def)

text \<open>
  C7, as amended. For a name that is registered, \<^verbatim>\<open>add(name, use_loc_if_exists=True)\<close>
  succeeds, resolves and logs the slot \<open>k\<close> the table maps the name to, and leaves the
  handler as it was, so that a second call does the same and no further slot is taken.
  The call itself evaluates to \<^verbatim>\<open>None\<close>: \<^verbatim>\<open>add\<close> has no return statement, which is what
  the counterexample after the witness shows on a table that maps \<^verbatim>\<open>ctrl\<close> to slot 0.
\<close>

theorem add_use_loc_if_exists_idempotent:
  assumes "name \<in> keys (locs h)"
  shows "\<exists>k. map_of (locs h) name = Some k
           \<and> add h name n True
               = Inr \<lparr>handler = h, logged_allocated = False, logged_location = k,
                      returned = PyNone\<rparr>
           \<and> add (handler \<lparr>handler = h, logged_allocated = False, logged_location = k,
                           returned = PyNone\<rparr>) name n True
               = Inr \<lparr>handler = h, logged_allocated = False, logged_location = k,
                      returned = PyNone\<rparr>"
proof -
  from assms obtain k where k: "map_of (locs h) name = Some k"
    by (auto simp: keys_map_of)
  with assms have "add h name n True
      = Inr \<lparr>handler = h, logged_allocated = False, logged_location = k, returned = PyNone\<rparr>"
    by (simp add: add_def)
  with k show ?thesis by simp
qed

theorem add_use_loc_if_exists_idempotent_witness:
  "add \<lparr>handler_name = ''CSR'', locs = [(''ctrl'', 0), (''uart'', 1)], n_locs = 32\<rparr> ''uart'' None True
     = Inr \<lparr>handler = \<lparr>handler_name = ''CSR'', locs = [(''ctrl'', 0), (''uart'', 1)], n_locs = 32\<rparr>,
            logged_allocated = False, logged_location = 1, returned = PyNone\<rparr>"
  using add_use_loc_if_exists_idempotent
    [of "''uart''" "\<lparr>handler_name = ''CSR'', locs = [(''ctrl'', 0), (''uart'', 1)], n_locs = 32\<rparr>" None]
  by (simp add: keys_def)

theorem add_returns_none_counterexample:
  "map_of (locs \<lparr>handler_name = ''CSR'', locs = [(''ctrl'', 0)], n_locs = 32\<rparr>) ''ctrl'' = Some 0
   \<and> (case add \<lparr>handler_name = ''CSR'', locs = [(''ctrl'', 0)], n_locs = 32\<rparr> ''ctrl'' None True of
         Inl e \<Rightarrow> False
       | Inr r \<Rightarrow> returned r = PyNone \<and> returned r \<noteq> PyInt 0)"
  by (simp add: add_def keys_def)

section \<open>Properties of SoCBusHandler: overlaps and allocation\<close>

lemma overlap_scan_None:
  "overlap_scan n0 r0 rest = Inr None \<longleftrightarrow> (\<forall>(m, s) \<in> set rest. overlap_test r0 s = Inr False)"
  by (induction rest) (auto split: sum.splits bool.splits)

lemma check_regions_overlap_Cons_None:
  "check_regions_overlap ((n0, r0) # rest) = Inr None \<longleftrightarrow>
     (\<forall>(m, s) \<in> set rest. overlap_test r0 s = Inr False) \<and> check_regions_overlap rest = Inr None"
proof -
  have scan: "overlap_scan n0 r0 rest = Inr None \<longleftrightarrow>
      (\<forall>(m, s) \<in> set rest. overlap_test r0 s = Inr False)"
    by (rule overlap_scan_None)
  show ?thesis
  proof (cases "overlap_scan n0 r0 rest")
    case (Inl e)
    with scan show ?thesis by simp
  next
    case (Inr x)
    with scan show ?thesis by (cases x) simp_all
  qed
qed

lemma overlap_test_sym:
  "overlap_test a b = Inr False \<longleftrightarrow> overlap_test b a = Inr False"
  by (auto simp: overlap_test_def split: option.splits if_splits)

lemma set_dict_set: "set (dict_set d k v) \<subseteq> insert (k, v) (set d)"
  by (induction d) (auto split: if_splits)

lemma check_regions_overlap_dict_set:
  "check_regions_overlap tbl = Inr None \<Longrightarrow>
   \<forall>(m, s) \<in> set tbl. overlap_test s c = Inr False \<Longrightarrow>
   check_regions_overlap (dict_set tbl name c) = Inr None"
proof (induction tbl)
  case Nil
  show ?case by simp
next
  case (Cons p tbl)
  obtain k r where p: "p = (k, r)" by (cases p)
  from Cons.prems(1) p have
    head: "\<forall>(m, s) \<in> set tbl. overlap_test r s = Inr False"
    and tail: "check_regions_overlap tbl = Inr None"
    by (simp_all add: check_regions_overlap_Cons_None del: check_regions_overlap.simps)
  from Cons.prems(2) p have
    rc: "overlap_test r c = Inr False"
    and rest: "\<forall>(m, s) \<in> set tbl. overlap_test s c = Inr False"
    by auto
  show ?case
  proof (cases "k = name")
    case True
    from rest have "\<forall>(m, s) \<in> set tbl. overlap_test c s = Inr False"
      using overlap_test_sym by blast
    with tail True p show ?thesis
      by (simp add: check_regions_overlap_Cons_None del: check_regions_overlap.simps)
  next
    case False
    have "\<forall>(m, s) \<in> set (dict_set tbl name c). overlap_test r s = Inr False"
      using head rc set_dict_set [of tbl name c] by auto
    moreover have "check_regions_overlap (dict_set tbl name c) = Inr None"
      using Cons.IH tail rest by blast
    ultimately show ?thesis using False p
      by (simp add: check_regions_overlap_Cons_None del: check_regions_overlap.simps)
  qed
qed

lemma first_conflict_None:
  "first_conflict rs c = Inr None \<longleftrightarrow> (\<forall>(m, s) \<in> set rs. overlap_test s c = Inr False)"
  by (induction rs) (auto split: sum.splits option.splits bool.splits)

lemma alloc_scan_result:
  "alloc_scan rs sz c lim org = Inr (Some R) \<Longrightarrow>
     (\<exists>org'. R = candidate_region org' sz c \<and> org \<le> org' \<and> org' + sz < lim)
     \<and> first_conflict rs R = Inr None"
proof (induction rs sz c lim org rule: alloc_scan.induct)
  case (1 rs sz c lim org)
  from "1.prems" have guard: "org + sz < lim"
    by (simp add: alloc_scan.simps [of rs sz c lim org] split: if_splits)
  show ?case
  proof (cases "first_conflict rs (candidate_region org sz c)")
    case (Inl e)
    with "1.prems" guard show ?thesis
      by (simp add: alloc_scan.simps [of rs sz c lim org])
  next
    case (Inr x)
    show ?thesis
    proof (cases x)
      case None
      with Inr "1.prems" guard show ?thesis
        by (auto simp: alloc_scan.simps [of rs sz c lim org])
    next
      case (Some a)
      show ?thesis
      proof (cases "origin a")
        case None
        with Some Inr "1.prems" guard show ?thesis
          by (simp add: alloc_scan.simps [of rs sz c lim org])
      next
        case ao: (Some ao)
        from Inr Some have "overlap_test a (candidate_region org sz c) = Inr True"
          by (simp add: first_conflict_overlaps)
        with ao have above: "org < ao + rsize a"
          by (auto dest: overlap_test_end_above simp: candidate_region_def)
        from "1.prems" guard Inr Some ao
        have "alloc_scan rs sz c lim (ao + rsize a) = Inr (Some R)"
          by (simp add: alloc_scan.simps [of rs sz c lim org])
        with "1.IH" [OF guard Inr Some ao] above show ?thesis by force
      qed
    qed
  qed
qed

lemma alloc_search_result:
  "alloc_search rs sz c srs = Inr R \<Longrightarrow>
     (\<exists>org'. R = candidate_region org' sz c) \<and> first_conflict rs R = Inr None"
proof (induction srs)
  case Nil
  then show ?case by simp
next
  case (Cons p srs)
  obtain n sr where p: "p = (n, sr)" by (cases p)
  with Cons show ?case
    by (auto split: option.splits sum.splits dest: alloc_scan_result)
qed

lemma alloc_region_result:
  "alloc_region h name sz c = Inr R \<Longrightarrow>
     (\<exists>org. R = candidate_region org sz c)
     \<and> (\<forall>(m, s) \<in> set (regions h). overlap_test s R = Inr False)"
  using alloc_search_result [of "regions h" sz c "search_regions h c" R]
  by (simp add: alloc_region_def first_conflict_None)

lemma table_ok_dict_set:
  "table_ok k tbl \<Longrightarrow> kind c = k \<Longrightarrow> check_regions_overlap (dict_set tbl name c) = Inr None
     \<Longrightarrow> table_ok k (dict_set tbl name c)"
  using set_dict_set [of tbl name c] by (auto simp: table_ok_def)

lemma add_region_keeps_tables_ok:
  assumes "table_ok Plain (regions h)" and "table_ok IO (io_regions h)"
    and "add_region h name r = Inr h'"
  shows "table_ok Plain (regions h') \<and> table_ok IO (io_regions h')"
proof (cases "kind r")
  case IO
  with assms(3) have "h' = h\<lparr>io_regions := dict_set (io_regions h) name r\<rparr>"
    and "check_regions_overlap (dict_set (io_regions h) name r) = Inr None"
    by (auto simp: add_region_def checked_def Let_def split: if_splits sum.splits option.splits)
  with assms(1,2) IO show ?thesis by (simp add: table_ok_dict_set)
next
  case Linker
  with assms(3) have "h' = h\<lparr>ld_regions := dict_set (ld_regions h) name r\<rparr>"
    by (auto simp: add_region_def checked_def Let_def split: if_splits sum.splits option.splits)
  with assms(1,2) show ?thesis by simp
next
  case Plain
  show ?thesis
  proof (cases "origin r")
    case None
    with Plain assms(3) obtain R where R: "alloc_region h name (rsize r) (cached r) = Inr R"
      and h': "h' = h\<lparr>regions := dict_set (regions h) name R\<rparr>"
      by (auto simp: add_region_def split: sum.splits)
    from alloc_region_result [OF R] have k: "kind R = Plain"
      and apart: "\<forall>(m, s) \<in> set (regions h). overlap_test s R = Inr False"
      by (auto simp: candidate_region_def)
    from assms(1) apart have "check_regions_overlap (dict_set (regions h) name R) = Inr None"
      by (simp add: table_ok_def check_regions_overlap_dict_set)
    with assms(1,2) k h' show ?thesis by (simp add: table_ok_dict_set)
  next
    case (Some ro)
    with Plain assms(3) have "h' = h\<lparr>regions := dict_set (regions h) name r\<rparr>"
      and "check_regions_overlap (dict_set (regions h) name r) = Inr None"
      by (auto simp: add_region_def checked_def Let_def
          split: if_splits sum.splits option.splits bool.splits)
    with assms(1,2) Plain show ?thesis by (simp add: table_ok_dict_set)
  qed
qed

lemma add_regions_keep_tables_ok:
  "table_ok Plain (regions h) \<Longrightarrow> table_ok IO (io_regions h) \<Longrightarrow> add_regions h calls = Inr h'
     \<Longrightarrow> table_ok Plain (regions h') \<and> table_ok IO (io_regions h')"
proof (induction calls arbitrary: h)
  case Nil
  then show ?case by simp
next
  case (Cons call calls)
  obtain name r where call: "call = (name, r)" by (cases call)
  with Cons.prems(3) obtain h1 where h1: "add_region h name r = Inr h1"
    and rest: "add_regions h1 calls = Inr h'"
    by (auto split: sum.splits)
  from add_region_keeps_tables_ok [OF Cons.prems(1,2) h1] Cons.IH rest
  show ?case by blast
qed

lemma overlap_test_placed_apart:
  "overlap_test r s = Inr False \<Longrightarrow> kind r \<noteq> Linker \<Longrightarrow> kind s \<noteq> Linker \<Longrightarrow> placed_apart r s"
  by (auto simp: overlap_test_def placed_apart_def split: option.splits if_splits)

lemma table_ok_no_overlaps:
  "table_ok k tbl \<Longrightarrow> k \<noteq> Linker \<Longrightarrow> no_overlaps tbl"
proof (induction tbl)
  case Nil
  show ?case by simp
next
  case (Cons p tbl)
  obtain n r where p: "p = (n, r)" by (cases p)
  from Cons.prems(1) p have kinds: "kind r = k" "\<forall>(m, s) \<in> set tbl. kind s = k"
    and head: "\<forall>(m, s) \<in> set tbl. overlap_test r s = Inr False"
    and tail: "check_regions_overlap tbl = Inr None"
    by (auto simp: table_ok_def check_regions_overlap_Cons_None
        simp del: check_regions_overlap.simps)
  have "placed_apart r s" if "(m, s) \<in> set tbl" for m s
  proof -
    from that kinds(2) head have "overlap_test r s = Inr False" "kind s = k" by auto
    with kinds(1) Cons.prems(2) show ?thesis by (simp add: overlap_test_placed_apart)
  qed
  then have "\<forall>(m, s) \<in> set tbl. placed_apart r s" by auto
  moreover from kinds tail Cons.IH Cons.prems(2) have "no_overlaps tbl"
    by (simp add: table_ok_def)
  ultimately show ?case using p by simp
qed

text \<open>
  C1. On a handler made by \<^verbatim>\<open>SoCBusHandler.__init__\<close> (which adds the reserved regions
  with \<^verbatim>\<open>add_region\<close>), after every sequence of \<^verbatim>\<open>add_region\<close> calls that all succeed,
  any two regions of the plain table have origins and do not overlap, and likewise any
  two regions of the I/O table. Linker regions live in a table of their own, on which
  nothing is claimed.
\<close>

theorem add_region_tables_never_overlap:
  assumes "SoCBusHandler_init std dw aw reserved_regions = Inr h"
    and "add_regions h calls = Inr h'"
  shows "no_overlaps (regions h') \<and> no_overlaps (io_regions h')"
proof -
  have "table_ok Plain (regions (new_bus std dw aw))" "table_ok IO (io_regions (new_bus std dw aw))"
    by (simp_all add: table_ok_def new_bus_def)
  moreover from assms(1)
  have "add_regions (new_bus std dw aw)
      (map (\<lambda>(name, x). (name, reserved_region x)) reserved_regions) = Inr h"
    by (simp add: SoCBusHandler_init_def split: if_splits)
  ultimately have "table_ok Plain (regions h) \<and> table_ok IO (io_regions h)"
    by (rule add_regions_keep_tables_ok)
  then have "table_ok Plain (regions h)" "table_ok IO (io_regions h)" by simp_all
  from add_regions_keep_tables_ok [OF this assms(2)]
  have "table_ok Plain (regions h')" "table_ok IO (io_regions h')" by simp_all
  then show ?thesis
    using table_ok_no_overlaps [of Plain "regions h'"] table_ok_no_overlaps [of IO "io_regions h'"]
    by simp
qed

theorem add_region_tables_never_overlap_witness:
  "(case SoCBusHandler_init ''wishbone'' 32 32 [(''rom'', Origin 0)] of
      Inl e \<Rightarrow> False
    | Inr h \<Rightarrow>
       (case add_regions h
          [(''sram'', \<lparr>origin = Some 0x10000000, rsize = 0x2000, mode = ''rw'', cached = True,
                       kind = Plain\<rparr>),
           (''io0'', \<lparr>origin = Some 0x80000000, rsize = 0x80000000, mode = ''rw'',
                      cached = False, kind = IO\<rparr>),
           (''csr'', \<lparr>origin = Some 0x82000000, rsize = 0x10000, mode = ''rw'', cached = False,
                      kind = Plain\<rparr>),
           (''main_ram'', \<lparr>origin = None, rsize = 0x1000, mode = ''rw'', cached = True,
                           kind = Plain\<rparr>)] of
          Inl e \<Rightarrow> False
        | Inr h' \<Rightarrow>
            map fst (regions h') = [''rom'', ''sram'', ''csr'', ''main_ram'']
            \<and> map (origin \<circ> snd) (regions h')
                = [Some 0, Some 0x10000000, Some 0x82000000, Some 0x1000000]
            \<and> map fst (io_regions h') = [''io0'']
            \<and> no_overlaps (regions h') \<and> no_overlaps (io_regions h')))"
proof -
  let ?calls = "[(''sram'', \<lparr>origin = Some 0x10000000, rsize = 0x2000, mode = ''rw'', cached = True,
                       kind = Plain\<rparr>),
           (''io0'', \<lparr>origin = Some 0x80000000, rsize = 0x80000000, mode = ''rw'',
                      cached = False, kind = IO\<rparr>),
           (''csr'', \<lparr>origin = Some 0x82000000, rsize = 0x10000, mode = ''rw'', cached = False,
                      kind = Plain\<rparr>),
           (''main_ram'', \<lparr>origin = None, rsize = 0x1000, mode = ''rw'', cached = True,
                           kind = Plain\<rparr>)]"
  let ?rom = "(''rom'', \<lparr>origin = Some 0, rsize = 0x1000000, mode = ''rw'', cached = True,
      kind = Plain\<rparr>)"
  let ?h = "new_bus ''wishbone'' 32 32 \<lparr>regions := [?rom]\<rparr>"
  let ?h' = "new_bus ''wishbone'' 32 32
      \<lparr>regions :=
         [?rom,
          (''sram'', \<lparr>origin = Some 0x10000000, rsize = 0x2000, mode = ''rw'', cached = True,
                      kind = Plain\<rparr>),
          (''csr'', \<lparr>origin = Some 0x82000000, rsize = 0x10000, mode = ''rw'', cached = False,
                     kind = Plain\<rparr>),
          (''main_ram'', \<lparr>origin = Some 0x1000000, rsize = 0x1000, mode = ''rw'', cached = True,
                          kind = Plain\<rparr>)],
       io_regions :=
         [(''io0'', \<lparr>origin = Some 0x80000000, rsize = 0x80000000, mode = ''rw'',
                     cached = False, kind = IO\<rparr>)]\<rparr>"
  have init: "SoCBusHandler_init ''wishbone'' 32 32 [(''rom'', Origin 0)] = Inr ?h"
    by (simp add: SoCBusHandler_init_def reserved_region_def new_bus_def add_region_def
        checked_def)
  have run: "add_regions ?h ?calls = Inr ?h'"
    by (simp add: new_bus_def add_region_def checked_def keys_def overlap_test_def
        check_region_is_io_def check_region_is_in_def alloc_region_def search_regions_def
        alloc_scan.simps candidate_region_def)
  from add_region_tables_never_overlap [OF init run]
  have "no_overlaps (regions ?h') \<and> no_overlaps (io_regions ?h')" .
  with init run show ?thesis by (simp add: new_bus_def)
qed

text \<open>
  C2. \<^verbatim>\<open>alloc_region\<close> does not align the origin it returns: next to a 4 KiB region at
  0 an 8 KiB request is placed at \<^verbatim>\<open>0x1000\<close>, the end of the region in conflict, which is
  no multiple of \<^verbatim>\<open>0x2000\<close>; \<^verbatim>\<open>decoder\<close> then refuses the region the allocator has
  just produced ("Origin needs to be aligned on size").
\<close>

theorem alloc_region_returns_misaligned_region:
  "alloc_region
     (new_bus ''wishbone'' 32 32
        \<lparr>regions := [(''rom'', \<lparr>origin = Some 0, rsize = 0x1000, mode = ''r'', cached = True,
                                 kind = Plain\<rparr>)]\<rparr>)
     ''main_ram'' 0x2000 True
     = Inr \<lparr>origin = Some 0x1000, rsize = 0x2000, mode = ''rw'', cached = True, kind = Plain\<rparr>
   \<and> (0x1000 :: int) mod 0x2000 \<noteq> 0
   \<and> decoder \<lparr>origin = Some 0x1000, rsize = 0x2000, mode = ''rw'', cached = True, kind = Plain\<rparr>
     = Inl UnalignedDecoderRegion"
proof (intro conjI)
  show "alloc_region
     (new_bus ''wishbone'' 32 32
        \<lparr>regions := [(''rom'', \<lparr>origin = Some 0, rsize = 0x1000, mode = ''r'', cached = True,
                                 kind = Plain\<rparr>)]\<rparr>)
     ''main_ram'' 0x2000 True
     = Inr \<lparr>origin = Some 0x1000, rsize = 0x2000, mode = ''rw'', cached = True, kind = Plain\<rparr>"
    by (simp add: new_bus_def alloc_region_def search_regions_def alloc_scan.simps
        candidate_region_def overlap_test_def)
next
  show "(0x1000 :: int) mod 0x2000 \<noteq> 0" by simp
next
  have "bit_length (0x2000 - 1) = 13"
    by (simp add: bit_length_def bit_length_nat.simps)
  then have "log2_int 0x2000 False = Inr 13"
    by (simp add: log2_int_def)
  moreover have "(0x1000 AND NOT 0x80000000) AND ((2::int) ^ 13 - 1) = 0x1000"
    by simp
  ultimately show "decoder \<lparr>origin = Some 0x1000, rsize = 0x2000, mode = ''rw'', cached = True,
      kind = Plain\<rparr> = Inl UnalignedDecoderRegion"
    by (simp add: decoder_def)
qed

lemma alloc_scan_fuel_enough:
  "nat (lim - (org + sz)) < k \<Longrightarrow>
     alloc_scan_fuel k rs sz c lim org = Some (alloc_scan rs sz c lim org)"
proof (induction k arbitrary: org)
  case 0
  then show ?case by simp
next
  case (Suc k)
  show ?case
  proof (cases "org + sz < lim")
    case False
    then show ?thesis by (simp add: alloc_scan.simps [of rs sz c lim org])
  next
    case guard: True
    show ?thesis
    proof (cases "first_conflict rs (candidate_region org sz c)")
      case (Inl e)
      with guard show ?thesis by (simp add: alloc_scan.simps [of rs sz c lim org])
    next
      case (Inr x)
      show ?thesis
      proof (cases x)
        case None
        with Inr guard show ?thesis by (simp add: alloc_scan.simps [of rs sz c lim org])
      next
        case (Some a)
        show ?thesis
        proof (cases "origin a")
          case None
          with Some Inr guard show ?thesis
            by (simp add: alloc_scan.simps [of rs sz c lim org])
        next
          case (Some ao)
          from Inr \<open>x = Some a\<close> have "overlap_test a (candidate_region org sz c) = Inr True"
            by (simp add: first_conflict_overlaps)
          with Some have "org < ao + rsize a"
            by (auto dest: overlap_test_end_above simp: candidate_region_def)
          with guard Suc.prems have "nat (lim - (ao + rsize a + sz)) < k"
            by linarith
          then have "alloc_scan_fuel k rs sz c lim (ao + rsize a)
              = Some (alloc_scan rs sz c lim (ao + rsize a))"
            by (rule Suc.IH)
          with Some \<open>x = Some a\<close> Inr guard show ?thesis
            by (simp add: alloc_scan.simps [of rs sz c lim org])
        qed
      qed
    qed
  qed
qed

lemma alloc_search_fuel_enough:
  "\<exists>k. \<forall>k'\<ge>k. alloc_search_fuel k' rs sz c srs = Some (alloc_search rs sz c srs)"
proof (induction srs)
  case Nil
  show ?case by simp
next
  case (Cons p srs)
  obtain n sr where p: "p = (n, sr)" by (cases p)
  from Cons obtain k1 where k1:
    "\<forall>k'\<ge>k1. alloc_search_fuel k' rs sz c srs = Some (alloc_search rs sz c srs)" by blast
  show ?case
  proof (cases "origin sr")
    case None
    with p show ?thesis by simp
  next
    case (Some so)
    define k2 where "k2 = Suc (nat (so + rsize sr - (so + sz)))"
    have "alloc_search_fuel k' rs sz c (p # srs) = Some (alloc_search rs sz c (p # srs))"
      if "k' \<ge> max k1 k2" for k'
    proof -
      from that have "nat (so + rsize sr - (so + sz)) < k'" by (simp add: k2_def)
      then have "alloc_scan_fuel k' rs sz c (so + rsize sr) so
          = Some (alloc_scan rs sz c (so + rsize sr) so)"
        by (rule alloc_scan_fuel_enough)
      moreover from that k1
      have "alloc_search_fuel k' rs sz c srs = Some (alloc_search rs sz c srs)" by simp
      ultimately show ?thesis using p Some
        by (simp split: sum.splits option.splits)
    qed
    then show ?thesis by blast
  qed
qed

text \<open>
  C10. \<^verbatim>\<open>alloc_region\<close> terminates, for every table and every size. When the candidate
  at \<open>org\<close> conflicts with an allocated region, the end of that region, where the search
  goes on, lies strictly above \<open>org\<close>; the loop runs only while \<open>org + sz < lim\<close>, so more
  than \<open>lim - (org + sz)\<close> iterations are never needed; and over all search regions some
  number of iterations suffices for the call to return its result or raise.
\<close>

theorem alloc_region_terminates:
  "(first_conflict (regions h) (candidate_region org sz c) = Inr (Some a) \<and> origin a = Some ao
      \<longrightarrow> org < ao + rsize a)
   \<and> (\<forall>lim. nat (lim - (org + sz)) < k
      \<longrightarrow> alloc_scan_fuel k (regions h) sz c lim org = Some (alloc_scan (regions h) sz c lim org))
   \<and> (\<exists>k. alloc_region_fuel k h name sz c = Some (alloc_region h name sz c))"
proof (intro conjI impI allI)
  assume "first_conflict (regions h) (candidate_region org sz c) = Inr (Some a) \<and> origin a = Some ao"
  then have "overlap_test a (candidate_region org sz c) = Inr True" "origin a = Some ao"
    by (auto dest: first_conflict_overlaps)
  then show "org < ao + rsize a"
    by (auto dest: overlap_test_end_above simp: candidate_region_def)
next
  fix lim assume "nat (lim - (org + sz)) < k"
  then show "alloc_scan_fuel k (regions h) sz c lim org = Some (alloc_scan (regions h) sz c lim org)"
    by (rule alloc_scan_fuel_enough)
next
  from alloc_search_fuel_enough [of "regions h" sz c "search_regions h c"]
  show "\<exists>k. alloc_region_fuel k h name sz c = Some (alloc_region h name sz c)"
    unfolding alloc_region_fuel_def alloc_region_def by blast
qed

theorem alloc_region_terminates_witness:
  "first_conflict
     [(''rom'', \<lparr>origin = Some 0, rsize = 0x1000, mode = ''r'', cached = True, kind = Plain\<rparr>)]
     (candidate_region 0 0x2000 True)
     = Inr (Some \<lparr>origin = Some 0, rsize = 0x1000, mode = ''r'', cached = True, kind = Plain\<rparr>)
   \<and> (0::int) < 0 + 0x1000
   \<and> alloc_scan_fuel 8193
       [(''rom'', \<lparr>origin = Some 0, rsize = 0x1000, mode = ''r'', cached = True, kind = Plain\<rparr>)]
       0x2000 True 0x4000 0
     = Some (Inr (Some (candidate_region 0x1000 0x2000 True)))"
proof -
  let ?rom = "\<lparr>origin = Some 0, rsize = 0x1000, mode = ''r'', cached = True, kind = Plain\<rparr>"
  let ?h = "new_bus ''wishbone'' 32 32 \<lparr>regions := [(''rom'', ?rom)]\<rparr>"
  note t = alloc_region_terminates
    [where h = ?h and org = 0 and sz = "0x2000" and c = True and a = ?rom and ao = 0
       and k = 8193 and name = "''x''"]
  have fc: "first_conflict [(''rom'', ?rom)] (candidate_region 0 0x2000 True) = Inr (Some ?rom)"
    by (simp add: candidate_region_def overlap_test_def)
  with t have above: "(0::int) < 0 + 0x1000"
    by (simp add: new_bus_def)
  from t have "\<forall>lim. nat (lim - (0 + 0x2000)) < 8193 \<longrightarrow>
      alloc_scan_fuel 8193 [(''rom'', ?rom)] 0x2000 True lim 0
        = Some (alloc_scan [(''rom'', ?rom)] 0x2000 True lim 0)"
    by (simp add: new_bus_def)
  then have "alloc_scan_fuel 8193 [(''rom'', ?rom)] 0x2000 True 0x4000 0
      = Some (alloc_scan [(''rom'', ?rom)] 0x2000 True 0x4000 0)"
    by simp
  moreover have "alloc_scan [(''rom'', ?rom)] 0x2000 True 0x4000 0
      = Inr (Some (candidate_region 0x1000 0x2000 True))"
    by (simp add: alloc_scan.simps candidate_region_def overlap_test_def)
  ultimately show ?thesis using fc above by simp
qed

section \<open>Properties of SoCBusHandler: validation of a region\<close>







lemma bit_length_nat_mask: "bit_length_nat (2 ^ m - 1) = m"
proof (induction m)
  case 0
  show ?case by (simp add: bit_length_nat.simps)
next
  case (Suc m)
  have half: "(2 ^ Suc m - 1) div 2 = (2 ^ m - 1 :: nat)" by simp
  have "(1::nat) \<le> 2 ^ m" by simp
  then have "(2::nat) \<le> 2 ^ Suc m" by simp
  then have ne: "(2 ^ Suc m - 1 :: nat) \<noteq> 0" by linarith
  have "bit_length_nat (2 ^ Suc m - 1) = Suc (bit_length_nat ((2 ^ Suc m - 1) div 2))"
    by (subst bit_length_nat.simps) (simp only: ne if_False)
  then show ?case by (simp only: half Suc)
qed

lemma log2_int_power: "log2_int (2 ^ m) b = Inr m"
proof -
  have "nat \<bar>2 ^ m - 1 :: int\<bar> = 2 ^ m - 1"
    by (simp add: nat_diff_distrib' nat_power_eq)
  then have "bit_length (2 ^ m - 1) = m"
    using bit_length_nat_mask [of m] by (simp add: bit_length_def)
  then show ?thesis by (simp add: log2_int_def)
qed

lemma and_pow2_minus_1: "(x::int) AND (2 ^ m - 1) = x mod 2 ^ m"
  by (simp add: mask_eq_exp_minus_1 [symmetric] take_bit_eq_mask [symmetric] take_bit_eq_mod)

text \<open>
  C3, as amended. \<^verbatim>\<open>add_region\<close> has no check of the size or of the alignment: a plain
  region with explicit origin that passes the I/O rule and the overlap check is stored,
  whatever its size and origin, and no failure of \<^verbatim>\<open>add_region\<close> is about alignment.
  Alignment is checked by \<^verbatim>\<open>decoder\<close>: for a region whose size is a power of two it
  raises when the origin, bit 31 cleared, is no multiple of the size. The counterexample
  after the witness is a region of size \<^verbatim>\<open>0x3000\<close> at \<^verbatim>\<open>0x1000\<close> that a new handler
  stores.
\<close>

theorem add_region_without_alignment_check:
  "(kind r = Plain \<and> origin r = Some ro \<and> (cached r \<or> check_region_is_io h r = Inr True)
      \<and> check_regions_overlap (dict_set (regions h) name r) = Inr None
      \<longrightarrow> add_region h name r = Inr (h\<lparr>regions := dict_set (regions h) name r\<rparr>))
   \<and> (origin r = Some ro \<and> rsize r = 2 ^ m \<and> (ro AND NOT 0x80000000) mod 2 ^ m \<noteq> 0
      \<longrightarrow> decoder r = Inl UnalignedDecoderRegion)"
proof (intro conjI impI)
  assume "kind r = Plain \<and> origin r = Some ro \<and> (cached r \<or> check_region_is_io h r = Inr True)
      \<and> check_regions_overlap (dict_set (regions h) name r) = Inr None"
  then show "add_region h name r = Inr (h\<lparr>regions := dict_set (regions h) name r\<rparr>)"
    by (auto simp: add_region_def checked_def)
next
  assume "origin r = Some ro \<and> rsize r = 2 ^ m \<and> (ro AND NOT 0x80000000) mod 2 ^ m \<noteq> 0"
  then show "decoder r = Inl UnalignedDecoderRegion"
    by (simp add: decoder_def log2_int_power and_pow2_minus_1)
qed

theorem add_region_without_alignment_check_witness:
  "add_region (new_bus ''wishbone'' 32 32) ''ram''
     \<lparr>origin = Some 0x1000, rsize = 0x3000, mode = ''rw'', cached = True, kind = Plain\<rparr>
   = Inr (new_bus ''wishbone'' 32 32
       \<lparr>regions := [(''ram'', \<lparr>origin = Some 0x1000, rsize = 0x3000, mode = ''rw'', cached = True,
                                kind = Plain\<rparr>)]\<rparr>)
   \<and> decoder \<lparr>origin = Some 0x1000, rsize = 0x2000, mode = ''rw'', cached = True, kind = Plain\<rparr>
     = Inl UnalignedDecoderRegion"
proof
  show "add_region (new_bus ''wishbone'' 32 32) ''ram''
     \<lparr>origin = Some 0x1000, rsize = 0x3000, mode = ''rw'', cached = True, kind = Plain\<rparr>
   = Inr (new_bus ''wishbone'' 32 32
       \<lparr>regions := [(''ram'', \<lparr>origin = Some 0x1000, rsize = 0x3000, mode = ''rw'', cached = True,
                                kind = Plain\<rparr>)]\<rparr>)"
    using add_region_without_alignment_check
      [where h = "new_bus ''wishbone'' 32 32" and name = "''ram''" and ro = "0x1000"
         and r = "\<lparr>origin = Some 0x1000, rsize = 0x3000, mode = ''rw'', cached = True,
                    kind = Plain\<rparr>"]
    by (simp add: new_bus_def)
next
  have "(0x2000 :: int) = 2 ^ 13" by simp
  moreover have "((0x1000 :: int) AND NOT 0x80000000) mod 2 ^ 13 \<noteq> 0" by simp
  ultimately show "decoder \<lparr>origin = Some 0x1000, rsize = 0x2000, mode = ''rw'', cached = True,
      kind = Plain\<rparr> = Inl UnalignedDecoderRegion"
    using add_region_without_alignment_check
      [where ro = "0x1000" and m = 13
         and r = "\<lparr>origin = Some 0x1000, rsize = 0x2000, mode = ''rw'', cached = True,
                    kind = Plain\<rparr>"]
    by simp
qed

theorem add_region_stores_misaligned_region_counterexample:
  "(0x1000 :: int) mod 0x3000 \<noteq> 0
   \<and> add_region (new_bus ''wishbone'' 32 32) ''ram''
       \<lparr>origin = Some 0x1000, rsize = 0x3000, mode = ''rw'', cached = True, kind = Plain\<rparr>
     = Inr \<lparr>standard = ''wishbone'', data_width = 32, address_width = 32, masters = [],
            slaves = [],
            regions = [(''ram'', \<lparr>origin = Some 0x1000, rsize = 0x3000, mode = ''rw'',
                                   cached = True, kind = Plain\<rparr>)],
            io_regions = [], ld_regions = [], submodules = []\<rparr>"
  by (simp add: new_bus_def add_region_def checked_def)

section \<open>Properties of the registration calls: failures\<close>

lemma checked_cases:
  "checked h' tbl = Inl (e, h'') \<Longrightarrow> h'' = h' \<and> check_regions_overlap tbl \<noteq> Inr None"
  "checked h' tbl = Inr h'' \<Longrightarrow> h'' = h'"
  by (auto simp: checked_def split: sum.splits option.splits)

lemma add_region_masters_slaves:
  assumes "add_region h name r = Inl (e, h') \<or> add_region h name r = Inr h'"
  shows "masters h' = masters h \<and> slaves h' = slaves h \<and> submodules h' = submodules h"
proof (cases "kind r")
  case IO
  with assms show ?thesis
    by (auto simp: add_region_def Let_def split: if_splits dest!: checked_cases)
next
  case Linker
  with assms show ?thesis
    by (auto simp: add_region_def Let_def split: if_splits dest!: checked_cases)
next
  case Plain
  show ?thesis
  proof (cases "origin r")
    case None
    with Plain assms show ?thesis
      by (auto simp: add_region_def split: sum.splits)
  next
    case (Some ro)
    with Plain assms show ?thesis
      by (auto simp: add_region_def Let_def split: if_splits sum.splits bool.splits
          dest!: checked_cases)
  qed
qed

lemma add_master_failure: "add_master h name m = Inl (e, h') \<Longrightarrow> h' = h"
  by (auto simp: add_master_def Let_def split: if_splits sum.splits prod.splits)

lemma add_failure: "add l name n u = Inl (e, l') \<Longrightarrow> l' = l"
  by (auto simp: add_def split: if_splits option.splits sum.splits)

lemma add_slave_failure:
  assumes "add_slave h name s reg = Inl (e, h')"
  shows "masters h' = masters h \<and> slaves h' = slaves h \<and> (reg = None \<longrightarrow> h' = h)"
proof (cases reg)
  case None
  with assms have "h' = h"
    by (auto simp: add_slave_def Let_def add_adapter_def
        split: if_splits option.splits sum.splits prod.splits)
  with None show ?thesis by simp
next
  case (Some r)
  define nm where "nm = (case name of None \<Rightarrow> ''slave'' @ str_nat (length (slaves h)) | Some n \<Rightarrow> n)"
  show ?thesis
  proof (cases "add_region h nm r")
    case (Inl x)
    with assms Some have "x = (e, h')"
      by (simp add: add_slave_def nm_def)
    with Inl add_region_masters_slaves [of h nm r e h'] Some show ?thesis by simp
  next
    case (Inr h1)
    with add_region_masters_slaves [of h nm r e h1]
    have same: "masters h1 = masters h" "slaves h1 = slaves h" by simp_all
    from assms Some Inr have "h' = h1"
      by (auto simp: add_slave_def nm_def add_adapter_def Let_def
          split: if_splits option.splits sum.splits prod.splits)
    with same Some show ?thesis by simp
  qed
qed

lemma map_of_dict_set: "map_of (dict_set d k v) k = Some v"
  by (induction d) auto

lemma stored_region_in_table: "map_of (region_table (store_region h name r) r) name = Some r"
  by (cases "kind r") (simp_all add: region_table_def store_region_def map_of_dict_set)

lemma checked_Inl:
  "check_regions_overlap tbl \<noteq> Inr None \<Longrightarrow> \<exists>e. checked h' tbl = Inl (e, h')"
  by (auto simp: checked_def split: sum.splits option.splits)

lemma add_region_overlap_failure:
  assumes "overlap_check_fails h name r"
  shows "\<exists>e. add_region h name r = Inl (e, store_region h name r)"
proof (cases "kind r")
  case IO
  with assms checked_Inl [of "dict_set (io_regions h) name r" "store_region h name r"]
  show ?thesis
    by (auto simp: overlap_check_fails_def add_region_def store_region_def region_table_def Let_def)
next
  case Linker
  with assms checked_Inl [of "dict_set (ld_regions h) name r" "store_region h name r"]
  show ?thesis
    by (auto simp: overlap_check_fails_def add_region_def store_region_def region_table_def Let_def)
next
  case Plain
  with assms checked_Inl [of "dict_set (regions h) name r" "store_region h name r"]
  show ?thesis
    by (auto simp: overlap_check_fails_def add_region_def store_region_def region_table_def Let_def)
qed

lemma add_region_failure_state:
  assumes "add_region h name r = Inl (e, h')"
  shows "h' = (if overlap_check_fails h name r then store_region h name r else h)"
proof (cases "overlap_check_fails h name r")
  case True
  with add_region_overlap_failure [of h name r] assms show ?thesis by auto
next
  case False
  have "h' = h"
  proof (cases "kind r")
    case IO
    with assms False show ?thesis
      by (auto simp: overlap_check_fails_def add_region_def store_region_def region_table_def
          Let_def split: if_splits dest!: checked_cases(1))
  next
    case Linker
    with assms False show ?thesis
      by (auto simp: overlap_check_fails_def add_region_def store_region_def region_table_def
          Let_def split: if_splits dest!: checked_cases(1))
  next
    case Plain
    show ?thesis
    proof (cases "origin r")
      case None
      with Plain assms show ?thesis
        by (auto simp: add_region_def split: sum.splits)
    next
      case (Some ro)
      with Plain assms False show ?thesis
        by (auto simp: overlap_check_fails_def add_region_def store_region_def region_table_def
            Let_def split: if_splits sum.splits bool.splits dest!: checked_cases(1))
    qed
  qed
  with False show ?thesis by simp
qed

lemma add_slave_without_region: "add_slave h name s None = Inl (e, h') \<Longrightarrow> h' = h"
  by (auto simp: add_slave_def Let_def add_adapter_def
      split: if_splits option.splits sum.splits prod.splits)

lemma add_slave_region_failed:
  "add_region h (slave_name h name) r = Inl (e, h')
     \<Longrightarrow> add_slave h name s (Some r) = Inl (e, h')"
  by (simp add: add_slave_def slave_name_def)

lemma add_slave_after_region:
  assumes "add_region h (slave_name h name) r = Inr h'"
    and "slave_name h name \<in> keys (slaves h) \<or> s = None"
  shows "\<exists>e. add_slave h name s (Some r) = Inl (e, h')"
proof -
  from assms(1) add_region_masters_slaves [of h "slave_name h name" r undefined h']
  have "slaves h' = slaves h" by simp
  with assms show ?thesis
    by (auto simp: add_slave_def slave_name_def add_adapter_def Let_def)
qed

lemma add_slave_with_region_failure:
  assumes "add_slave h name s (Some r) = Inl (e, h')"
  shows "add_region h (slave_name h name) r = Inl (e, h')
         \<or> add_region h (slave_name h name) r = Inr h'"
proof (cases "add_region h (slave_name h name) r")
  case (Inl x)
  with assms show ?thesis by (simp add: add_slave_def slave_name_def)
next
  case (Inr h1)
  with assms have "h' = h1"
    by (auto simp: add_slave_def slave_name_def add_adapter_def Let_def
        split: if_splits option.splits sum.splits prod.splits)
  with Inr show ?thesis by simp
qed

text \<open>
  C8, as amended. \<^verbatim>\<open>add_master\<close> and \<^verbatim>\<open>SoCLocHandler.add\<close> are atomic: when they fail
  the handler is as before. \<^verbatim>\<open>add_region\<close> and \<^verbatim>\<open>add_slave\<close> leave masters and slaves
  as they were when they fail. A failing \<^verbatim>\<open>add_region\<close> leaves the region tables as they
  were, unless it fails in the overlap check, which runs after the assignment to the
  table: whenever the call gets to that check and the check does not pass, the call fails
  and the handler it leaves is the one with the new region stored under its name. A
  failing \<^verbatim>\<open>add_slave\<close> that was given no region leaves the handler as it was. Given a
  region, it fails as its \<^verbatim>\<open>add_region\<close> call fails and leaves the handler that call
  leaves; and when that call succeeds and the slave name is taken (or no slave interface
  is given), it fails and leaves the handler with the region that \<^verbatim>\<open>add_region\<close> has
  stored. The counterexample after the witness is the overlap scenario of the
  specification, and a slave name that is already taken.
\<close>

theorem registration_failure_state:
  "(add_master h mname m = Inl (e, h') \<longrightarrow> h' = h)
   \<and> (add l lname n u = Inl (e, l') \<longrightarrow> l' = l)
   \<and> (add_region h name r = Inl (e, h') \<longrightarrow>
        masters h' = masters h \<and> slaves h' = slaves h
        \<and> h' = (if overlap_check_fails h name r then store_region h name r else h))
   \<and> (overlap_check_fails h name r \<longrightarrow>
        (\<exists>x. add_region h name r = Inl (x, store_region h name r))
        \<and> map_of (region_table (store_region h name r) r) name = Some r)
   \<and> (add_slave h sname s None = Inl (e, h') \<longrightarrow> h' = h)
   \<and> (add_slave h sname s (Some r) = Inl (e, h') \<longrightarrow>
        masters h' = masters h \<and> slaves h' = slaves h
        \<and> (add_region h (slave_name h sname) r = Inl (e, h')
            \<or> add_region h (slave_name h sname) r = Inr h'))
   \<and> (add_region h (slave_name h sname) r = Inl (e, h') \<longrightarrow>
        add_slave h sname s (Some r) = Inl (e, h'))
   \<and> (add_region h (slave_name h sname) r = Inr h'
        \<and> (slave_name h sname \<in> keys (slaves h) \<or> s = None) \<longrightarrow>
        (\<exists>x. add_slave h sname s (Some r) = Inl (x, h')))"
proof (intro conjI impI)
  assume "add_master h mname m = Inl (e, h')"
  then show "h' = h" by (rule add_master_failure)
next
  assume "add l lname n u = Inl (e, l')"
  then show "l' = l" by (rule add_failure)
next
  assume a: "add_region h name r = Inl (e, h')"
  with add_region_masters_slaves [of h name r e h']
  show "masters h' = masters h" "slaves h' = slaves h" by simp_all
  from a show "h' = (if overlap_check_fails h name r then store_region h name r else h)"
    by (rule add_region_failure_state)
next
  assume "overlap_check_fails h name r"
  then show "\<exists>x. add_region h name r = Inl (x, store_region h name r)"
    by (rule add_region_overlap_failure)
next
  show "map_of (region_table (store_region h name r) r) name = Some r"
    by (rule stored_region_in_table)
next
  assume "add_slave h sname s None = Inl (e, h')"
  then show "h' = h" by (rule add_slave_without_region)
next
  assume a: "add_slave h sname s (Some r) = Inl (e, h')"
  with add_slave_failure [of h sname s "Some r" e h']
  show "masters h' = masters h" "slaves h' = slaves h" by simp_all
  from a show "add_region h (slave_name h sname) r = Inl (e, h')
      \<or> add_region h (slave_name h sname) r = Inr h'"
    by (rule add_slave_with_region_failure)
next
  assume "add_region h (slave_name h sname) r = Inl (e, h')"
  then show "add_slave h sname s (Some r) = Inl (e, h')" by (rule add_slave_region_failed)
next
  assume "add_region h (slave_name h sname) r = Inr h'
        \<and> (slave_name h sname \<in> keys (slaves h) \<or> s = None)"
  then show "\<exists>x. add_slave h sname s (Some r) = Inl (x, h')"
    by (auto intro: add_slave_after_region)
qed

theorem registration_failure_state_witness:
  "add_master (new_bus ''wishbone'' 32 32 \<lparr>masters := [(''cpu'', \<lparr>if_data_width = 32\<rparr>)]\<rparr>)
     (Some ''cpu'') (Some \<lparr>if_data_width = 32\<rparr>)
     = Inl (DuplicateMasterName,
            new_bus ''wishbone'' 32 32 \<lparr>masters := [(''cpu'', \<lparr>if_data_width = 32\<rparr>)]\<rparr>)
   \<and> add \<lparr>handler_name = ''CSR'', locs = [(''ctrl'', 0)], n_locs = 32\<rparr> ''ctrl'' (Some 1) False
     = Inl (DuplicateLocationName, \<lparr>handler_name = ''CSR'', locs = [(''ctrl'', 0)], n_locs = 32\<rparr>)
   \<and> add_region (new_bus ''wishbone'' 32 32
        \<lparr>regions := [(''rom'', \<lparr>origin = Some 0, rsize = 0x10000, mode = ''r'', cached = True,
                                 kind = Plain\<rparr>)]\<rparr>) ''ram''
       \<lparr>origin = Some 0x8000, rsize = 0x4000, mode = ''rw'', cached = True, kind = Plain\<rparr>
     = Inl (RegionOverlap ''rom'' ''ram'',
            store_region (new_bus ''wishbone'' 32 32
        \<lparr>regions := [(''rom'', \<lparr>origin = Some 0, rsize = 0x10000, mode = ''r'', cached = True,
                                 kind = Plain\<rparr>)]\<rparr>) ''ram''
              \<lparr>origin = Some 0x8000, rsize = 0x4000, mode = ''rw'', cached = True, kind = Plain\<rparr>)
   \<and> map_of (regions (store_region (new_bus ''wishbone'' 32 32
        \<lparr>regions := [(''rom'', \<lparr>origin = Some 0, rsize = 0x10000, mode = ''r'', cached = True,
                                 kind = Plain\<rparr>)]\<rparr>) ''ram''
              \<lparr>origin = Some 0x8000, rsize = 0x4000, mode = ''rw'', cached = True, kind = Plain\<rparr>)) ''ram''
     = Some \<lparr>origin = Some 0x8000, rsize = 0x4000, mode = ''rw'', cached = True, kind = Plain\<rparr>
   \<and> add_slave (new_bus ''wishbone'' 32 32
        \<lparr>regions := [(''rom'', \<lparr>origin = Some 0, rsize = 0x10000, mode = ''r'', cached = True,
                                 kind = Plain\<rparr>)]\<rparr>) (Some ''ram'') (Some \<lparr>if_data_width = 32\<rparr>) None
     = Inl (UnknownRegionName, (new_bus ''wishbone'' 32 32
        \<lparr>regions := [(''rom'', \<lparr>origin = Some 0, rsize = 0x10000, mode = ''r'', cached = True,
                                 kind = Plain\<rparr>)]\<rparr>))
   \<and> add_slave (new_bus ''wishbone'' 32 32
        \<lparr>regions := [(''rom'', \<lparr>origin = Some 0, rsize = 0x10000, mode = ''r'', cached = True,
                                 kind = Plain\<rparr>)]\<rparr>) (Some ''ram'') (Some \<lparr>if_data_width = 32\<rparr>)
       (Some \<lparr>origin = Some 0x8000, rsize = 0x4000, mode = ''rw'', cached = True, kind = Plain\<rparr>)
     = Inl (RegionOverlap ''rom'' ''ram'',
            store_region (new_bus ''wishbone'' 32 32
        \<lparr>regions := [(''rom'', \<lparr>origin = Some 0, rsize = 0x10000, mode = ''r'', cached = True,
                                 kind = Plain\<rparr>)]\<rparr>) ''ram''
              \<lparr>origin = Some 0x8000, rsize = 0x4000, mode = ''rw'', cached = True, kind = Plain\<rparr>)
   \<and> add_slave (new_bus ''wishbone'' 32 32 \<lparr>slaves := [(''ram'', \<lparr>if_data_width = 32\<rparr>)]\<rparr>) (Some ''ram'') (Some \<lparr>if_data_width = 32\<rparr>)
       (Some \<lparr>origin = Some 0x8000, rsize = 0x4000, mode = ''rw'', cached = True, kind = Plain\<rparr>)
     = Inl (DuplicateSlaveName,
            store_region (new_bus ''wishbone'' 32 32 \<lparr>slaves := [(''ram'', \<lparr>if_data_width = 32\<rparr>)]\<rparr>) ''ram''
              \<lparr>origin = Some 0x8000, rsize = 0x4000, mode = ''rw'', cached = True, kind = Plain\<rparr>)"
proof -
  let ?hm = "new_bus ''wishbone'' 32 32 \<lparr>masters := [(''cpu'', \<lparr>if_data_width = 32\<rparr>)]\<rparr>"
  let ?l = "\<lparr>handler_name = ''CSR'', locs = [(''ctrl'', 0)], n_locs = 32\<rparr>"
  let ?h = "new_bus ''wishbone'' 32 32
        \<lparr>regions := [(''rom'', \<lparr>origin = Some 0, rsize = 0x10000, mode = ''r'', cached = True,
                                 kind = Plain\<rparr>)]\<rparr>"
  let ?hs = "new_bus ''wishbone'' 32 32 \<lparr>slaves := [(''ram'', \<lparr>if_data_width = 32\<rparr>)]\<rparr>"
  let ?ram = "\<lparr>origin = Some 0x8000, rsize = 0x4000, mode = ''rw'', cached = True, kind = Plain\<rparr>"
  let ?if = "Some \<lparr>if_data_width = 32\<rparr>"
  note defs = add_region_def checked_def overlap_error_def overlap_test_def keys_def new_bus_def
    store_region_def region_table_def
  have m: "\<exists>h'. add_master ?hm (Some ''cpu'') ?if = Inl (DuplicateMasterName, h')"
    by (simp add: add_master_def keys_def new_bus_def)
  have a: "\<exists>l'. add ?l ''ctrl'' (Some 1) False = Inl (DuplicateLocationName, l')"
    by (simp add: add_def keys_def)
  have f: "overlap_check_fails ?h ''ram'' ?ram"
    by (simp add: overlap_check_fails_def defs)
  have r: "\<exists>h'. add_region ?h ''ram'' ?ram = Inl (RegionOverlap ''rom'' ''ram'', h')"
    by (simp add: defs)
  have s: "\<exists>h'. add_slave ?h (Some ''ram'') ?if None = Inl (UnknownRegionName, h')"
    by (simp add: add_slave_def new_bus_def)
  have n: "slave_name ?h (Some ''ram'') = ''ram''" "slave_name ?hs (Some ''ram'') = ''ram''"
    by (simp_all add: slave_name_def)
  have ok: "add_region ?hs ''ram'' ?ram = Inr (store_region ?hs ''ram'' ?ram)"
    by (simp add: defs)
  have taken: "''ram'' \<in> keys (slaves ?hs)"
    by (simp add: keys_def new_bus_def)
  have d: "\<exists>h'. add_slave ?hs (Some ''ram'') ?if (Some ?ram) = Inl (DuplicateSlaveName, h')"
    by (simp add: add_slave_def defs Let_def)
  from m obtain h1 where h1: "add_master ?hm (Some ''cpu'') ?if = Inl (DuplicateMasterName, h1)"
    by blast
  from registration_failure_state
    [where h = ?hm and mname = "Some ''cpu''" and m = ?if and e = DuplicateMasterName
       and h' = h1] h1
  have c1: "h1 = ?hm" by blast
  from a obtain l1 where l1: "add ?l ''ctrl'' (Some 1) False = Inl (DuplicateLocationName, l1)"
    by blast
  from registration_failure_state
    [where l = ?l and lname = "''ctrl''" and n = "Some 1" and u = False
       and e = DuplicateLocationName and l' = l1] l1
  have c2: "l1 = ?l" by blast
  from r obtain h2 where h2: "add_region ?h ''ram'' ?ram = Inl (RegionOverlap ''rom'' ''ram'', h2)"
    by blast
  from registration_failure_state
    [where h = ?h and name = "''ram''" and r = ?ram and e = "RegionOverlap ''rom'' ''ram''"
       and h' = h2] h2 f
  have c3: "h2 = store_region ?h ''ram'' ?ram"
    and c4: "map_of (region_table (store_region ?h ''ram'' ?ram) ?ram) ''ram'' = Some ?ram"
    by simp_all
  from s obtain h3 where h3: "add_slave ?h (Some ''ram'') ?if None = Inl (UnknownRegionName, h3)"
    by blast
  from registration_failure_state
    [where h = ?h and sname = "Some ''ram''" and s = ?if and e = UnknownRegionName and h' = h3] h3
  have c5: "h3 = ?h" by blast
  from registration_failure_state
    [where h = ?h and sname = "Some ''ram''" and s = ?if and r = ?ram
       and e = "RegionOverlap ''rom'' ''ram''" and h' = "store_region ?h ''ram'' ?ram"]
    h2 c3 n(1)
  have c6: "add_slave ?h (Some ''ram'') ?if (Some ?ram)
      = Inl (RegionOverlap ''rom'' ''ram'', store_region ?h ''ram'' ?ram)"
    by simp
  from registration_failure_state
    [where h = ?hs and sname = "Some ''ram''" and s = ?if and r = ?ram
       and h' = "store_region ?hs ''ram'' ?ram"]
    ok taken n(2)
  have "\<exists>x. add_slave ?hs (Some ''ram'') ?if (Some ?ram) = Inl (x, store_region ?hs ''ram'' ?ram)"
    by simp
  with d have c7: "add_slave ?hs (Some ''ram'') ?if (Some ?ram)
      = Inl (DuplicateSlaveName, store_region ?hs ''ram'' ?ram)"
    by auto
  from c4 have c4': "map_of (regions (store_region ?h ''ram'' ?ram)) ''ram'' = Some ?ram"
    by (simp add: region_table_def)
  from h1 c1 l1 c2 h2 c3 c4' h3 c5 c6 c7 show ?thesis by simp
qed

theorem failed_registration_changes_tables_counterexample:
  "(case add_region (new_bus ''wishbone'' 32 32
        \<lparr>regions := [(''rom'', \<lparr>origin = Some 0, rsize = 0x10000, mode = ''r'', cached = True,
                                 kind = Plain\<rparr>)]\<rparr>) ''ram''
       \<lparr>origin = Some 0x8000, rsize = 0x4000, mode = ''rw'', cached = True, kind = Plain\<rparr> of
      Inr h' \<Rightarrow> False
    | Inl (e, h') \<Rightarrow>
        e = RegionOverlap ''rom'' ''ram''
        \<and> map fst (regions h') = [''rom'', ''ram'']
        \<and> regions h' \<noteq> regions (new_bus ''wishbone'' 32 32
        \<lparr>regions := [(''rom'', \<lparr>origin = Some 0, rsize = 0x10000, mode = ''r'', cached = True,
                                 kind = Plain\<rparr>)]\<rparr>))
   \<and> (case add_slave (new_bus ''wishbone'' 32 32 \<lparr>slaves := [(''ram'', \<lparr>if_data_width = 32\<rparr>)]\<rparr>)
       (Some ''ram'') (Some \<lparr>if_data_width = 32\<rparr>)
       (Some \<lparr>origin = Some 0x8000, rsize = 0x4000, mode = ''rw'', cached = True, kind = Plain\<rparr>) of
      Inr h' \<Rightarrow> False
    | Inl (e, h') \<Rightarrow>
        e = DuplicateSlaveName
        \<and> map fst (regions h') = [''ram'']
        \<and> regions (new_bus ''wishbone'' 32 32 \<lparr>slaves := [(''ram'', \<lparr>if_data_width = 32\<rparr>)]\<rparr>) = [])"
  by (simp add: add_region_def add_slave_def checked_def overlap_error_def overlap_test_def
      keys_def new_bus_def Let_def)

section \<open>Properties of SoCRegion.decoder\<close>

lemma clear_top_bit: "take_bit (Suc n) (x::int) AND NOT (2 ^ n) = take_bit n x"
  by (rule bit_eqI) (auto simp: bit_simps)

lemma clear_bit31: "0 \<le> x \<Longrightarrow> x < 2 ^ 32 \<Longrightarrow> (x::int) AND NOT 0x80000000 = take_bit 31 x"
proof -
  assume "0 \<le> x" "x < 2 ^ 32"
  then have x: "take_bit (Suc 31) x = x" by (simp add: take_bit_int_eq_self)
  have c: "(0x80000000::int) = 2 ^ 31" by simp
  show ?thesis
    unfolding c using clear_top_bit [of 31 x] by (simp only: x)
qed

lemma take_bit_succ_neq: "0 < n \<Longrightarrow> take_bit n (j + 1) \<noteq> take_bit n (j::int)"
proof
  assume n: "0 < n" and "take_bit n (j + 1) = take_bit n j"
  then have "(j + 1) mod 2 ^ n = j mod 2 ^ n" by (simp add: take_bit_eq_mod)
  then have "(2::int) ^ n dvd (j + 1) - j" by (simp add: mod_eq_dvd_iff)
  then have "(2::int) ^ n dvd 1" by simp
  moreover from n have "(2::int) dvd 2 ^ n" by simp
  ultimately have "(2::int) dvd 1" by (rule dvd_trans [rotated])
  then show False by simp
qed

lemma decoder_predicate:
  assumes "origin r = Some ro" and "rsize r = 2 ^ (m' + 2)" and "m' \<le> 28"
    and "2 ^ (m' + 2) dvd ro" and "0 \<le> ro" and "ro < 2 ^ 32"
  shows "\<exists>p. decoder r = Inr p \<and>
     (\<forall>x. p (word_address x)
        = Inr (take_bit (29 - m') (drop_bit (m' + 2) x) = take_bit (29 - m') (drop_bit (m' + 2) ro)))"
proof -
  have l1: "log2_int (rsize r) False = Inr (m' + 2)"
    using assms(2) log2_int_power [of "m' + 2" False] by simp
  have org: "ro AND NOT 0x80000000 = take_bit 31 ro"
    using assms(5,6) by (rule clear_bit31)
  have dv: "(2::int) ^ (m' + 2) dvd 2 ^ 31"
    using assms(3) by (intro le_imp_power_dvd) simp
  have "take_bit 31 ro mod 2 ^ (m' + 2) = ro mod 2 ^ (m' + 2)"
    unfolding take_bit_eq_mod by (rule mod_mod_cancel [OF dv])
  moreover have "ro mod 2 ^ (m' + 2) = 0"
    using assms(4) by (simp only: mod_eq_0_iff_dvd)
  ultimately have aligned: "take_bit 31 ro AND (2 ^ (m' + 2) - 1) = 0"
    by (simp only: and_pow2_minus_1)
  have sz: "drop_bit 2 ((2::int) ^ (m' + 2)) = 2 ^ m'"
    by (simp add: drop_bit_eq_div)
  have l2: "log2_int (2 ^ m') True = Inr m'" by (rule log2_int_power)
  have rhs: "drop_bit m' (drop_bit 2 (take_bit 31 ro)) = take_bit (29 - m') (drop_bit (m' + 2) ro)"
    by (simp add: drop_bit_take_bit add.commute)
  have lhs: "slice_to_last (word_address x) m'
      = Inr (take_bit (29 - m') (drop_bit (m' + 2) x))" for x
    using assms(3) by (simp add: slice_to_last_def word_address_def add.commute)
  show ?thesis
    using assms(1) l1 org aligned sz l2 rhs lhs
    by (simp add: decoder_def Let_def)
qed

text \<open>
  C9, as amended. For a region whose size \<open>S\<close> is a power of two between 4 bytes (one
  word) and \<open>2 ^ 30\<close>, whose origin \<open>O\<close> is a multiple of \<open>S\<close> and lies in the 32-bit address
  space, \<^verbatim>\<open>decoder\<close> succeeds and its predicate, read on the 30-bit word address, is
  true at the word address of \<open>O\<close>, true at the word address of \<open>O + S - 4\<close> and false at
  the word address of \<open>O + S\<close>. The bounds on \<open>S\<close> are needed. The counterexample after
  the witness has a region of 2 bytes at 0, where \<open>O + S\<close> lies in the word of \<open>O\<close> and is
  decoded as true, and a region of \<open>2 ^ 31\<close> bytes at 0: the decoder leaves bit 31 of the
  address out, so that the word address of \<open>O + S = 0x80000000\<close> is decoded as true.
\<close>

theorem decoder_round_trip:
  assumes "origin r = Some ro" and "rsize r = 2 ^ m" and "2 \<le> m" and "m \<le> 30"
    and "2 ^ m dvd ro" and "0 \<le> ro" and "ro < 2 ^ 32"
  shows "\<exists>p. decoder r = Inr p
           \<and> p (word_address ro) = Inr True
           \<and> p (word_address (ro + rsize r - 4)) = Inr True
           \<and> p (word_address (ro + rsize r)) = Inr False"
proof -
  from assms(3) obtain m' where m: "m = m' + 2"
    by (metis add.commute le_Suc_ex)
  with assms(4) have m': "m' \<le> 28" by simp
  from decoder_predicate [OF assms(1) assms(2) [unfolded m] m' assms(5) [unfolded m] assms(6,7)]
  obtain p where p: "decoder r = Inr p"
    and v: "\<And>x. p (word_address x)
        = Inr (take_bit (29 - m') (drop_bit (m' + 2) x) = take_bit (29 - m') (drop_bit (m' + 2) ro))"
    by blast
  from assms(5) m obtain j where j: "ro = j * 2 ^ (m' + 2)" by (auto elim: dvdE simp: mult.commute)
  have d0: "drop_bit (m' + 2) ro = j"
    using j by (simp add: drop_bit_eq_div)
  have "(4::int) \<le> 2 ^ (m' + 2)" by simp
  then have "(j * 2 ^ (m' + 2) + (2 ^ (m' + 2) - 4)) div 2 ^ (m' + 2) = j"
    by (simp add: div_pos_pos_trivial)
  then have d1: "drop_bit (m' + 2) (ro + rsize r - 4) = j"
    using j assms(2) m by (simp add: drop_bit_eq_div algebra_simps)
  have "(j * 2 ^ (m' + 2) + 2 ^ (m' + 2)) div 2 ^ (m' + 2) = j + 1"
    by simp
  then have d2: "drop_bit (m' + 2) (ro + rsize r) = j + 1"
    using j assms(2) m by (simp add: drop_bit_eq_div)
  have "0 < 29 - m'" using m' by simp
  then have ne: "take_bit (29 - m') (j + 1) \<noteq> take_bit (29 - m') j"
    by (rule take_bit_succ_neq)
  show ?thesis
    using p v [of ro] v [of "ro + rsize r - 4"] v [of "ro + rsize r"] d0 d1 d2 ne
    by simp
qed

theorem decoder_round_trip_witness:
  "(case decoder \<lparr>origin = Some 0x10000000, rsize = 0x2000, mode = ''rw'', cached = True,
                   kind = Plain\<rparr> of
      Inl e \<Rightarrow> False
    | Inr p \<Rightarrow>
        p (word_address 0x10000000) = Inr True
        \<and> p (word_address 0x10001FFC) = Inr True
        \<and> p (word_address 0x10002000) = Inr False)"
proof -
  let ?r = "\<lparr>origin = Some 0x10000000, rsize = 0x2000, mode = ''rw'', cached = True,
             kind = Plain\<rparr>"
  have "(0x2000 :: int) = 2 ^ 13" by simp
  moreover have "(2 :: int) ^ 13 dvd 0x10000000" by simp
  ultimately have "\<exists>p. decoder ?r = Inr p
           \<and> p (word_address 0x10000000) = Inr True
           \<and> p (word_address (0x10000000 + rsize ?r - 4)) = Inr True
           \<and> p (word_address (0x10000000 + rsize ?r)) = Inr False"
    using decoder_round_trip [where r = ?r and ro = "0x10000000" and m = 13] by simp
  then show ?thesis by auto
qed

theorem decoder_round_trip_counterexample:
  "(case decoder \<lparr>origin = Some 0, rsize = 2, mode = ''rw'', cached = True, kind = Plain\<rparr> of
      Inl e \<Rightarrow> False
    | Inr p \<Rightarrow> p (word_address (0 + 2)) = Inr True)
   \<and> (case decoder \<lparr>origin = Some 0, rsize = 2 ^ 31, mode = ''rw'', cached = True,
                     kind = Plain\<rparr> of
      Inl e \<Rightarrow> False
    | Inr p \<Rightarrow> p (word_address (0 + 2 ^ 31)) = Inr True)"
proof
  have "bit_length (2 - 1) = 1"
    by (simp add: bit_length_def bit_length_nat.simps)
  then have "log2_int 2 False = Inr 1" by (simp add: log2_int_def)
  then show "(case decoder \<lparr>origin = Some 0, rsize = 2, mode = ''rw'', cached = True,
      kind = Plain\<rparr> of Inl e \<Rightarrow> False | Inr p \<Rightarrow> p (word_address (0 + 2)) = Inr True)"
    by (simp add: decoder_def log2_int_def slice_to_last_def word_address_def)
next
  have "log2_int (2 ^ 31) False = Inr 31" by (rule log2_int_power)
  moreover have "log2_int (2 ^ 29) True = Inr 29" by (rule log2_int_power)
  moreover have "drop_bit 2 ((2::int) ^ 31) = 2 ^ 29" by (simp add: drop_bit_eq_div)
  ultimately show "(case decoder \<lparr>origin = Some 0, rsize = 2 ^ 31, mode = ''rw'', cached = True,
      kind = Plain\<rparr> of Inl e \<Rightarrow> False | Inr p \<Rightarrow> p (word_address (0 + 2 ^ 31)) = Inr True)"
    by (simp add: decoder_def slice_to_last_def word_address_def)
qed

end
